theory Spec2Isabelle
  imports Complex_Main
begin

section \<open>QgsMapRendererTask: data model\<close>

text \<open>
  The development embeds \<^verbatim>\<open>src/core/qgsmaprenderertask.cpp\<close>. The C++ type
  \<^verbatim>\<open>double\<close> is represented by \<^typ>\<open>real\<close>: arithmetic is exact, rounding and the
  non-finite values of IEEE 754 are outside the model. Pointers to objects owned by
  collaborators (painters, layers, decorations) are handles of type \<^typ>\<open>nat\<close>; a
  pointer that may be null is an \<^typ>\<open>nat option\<close>.
\<close>

text \<open>\<^verbatim>\<open>QSize\<close> of Qt: two machine integers.\<close>

record QSize =
  width :: int
  height :: int

text \<open>
  Modelled from the spec: \<^verbatim>\<open>QgsRectangle\<close> is declared outside the given source. The
  spec's data model gives the extent as (xmin, ymin, xmax, ymax); its width and
  height are the differences of the bounds.
\<close>

record QgsRectangle =
  xMinimum :: real
  yMinimum :: real
  xMaximum :: real
  yMaximum :: real

definition rectWidth :: "QgsRectangle \<Rightarrow> real" where
  "rectWidth r = xMaximum r - xMinimum r"

text \<open>Modelled from the spec: the height of the extent, \<open>ymax - ymin\<close>.\<close>

definition rectHeight :: "QgsRectangle \<Rightarrow> real" where
  "rectHeight r = yMaximum r - yMinimum r"

text \<open>
  Modelled from the spec: \<^verbatim>\<open>QgsMapSettings\<close> is declared outside the given source. The
  record holds what the spec's data model lists and what \<^verbatim>\<open>run()\<close> reads: the extent,
  the output size in pixels, the output resolution, the coordinate-reference identity
  (as the WKT text that \<^verbatim>\<open>destinationCrs().toWkt()\<close> yields), the list of layer
  handles, the rotation, and the antialiasing flag that the render context inherits.
\<close>

record MapSettings =
  extent :: QgsRectangle
  outputSize :: QSize
  outputDpi :: real
  destinationCrsWkt :: string
  layers :: "nat list"
  rotation :: real
  antialiasing :: bool

text \<open>
  Modelled from the spec: \<^verbatim>\<open>QgsAnnotation\<close> is declared outside the given source. The
  fields are the accessors that \<^verbatim>\<open>run()\<close> calls. A position is a pair (x, y).
\<close>

record QgsAnnotation =
  isVisible :: bool
  mapLayer :: "nat option"
  hasFixedMapPosition :: bool
  mapPosition :: "real \<times> real"
  relativePosition :: "real \<times> real"

text \<open>
  Modelled from the spec: the error taxonomy is declared in the header, which is
  outside the given source. \<open>NoError\<close> is the initial value ("none") of the
  task's error code.
\<close>

datatype ErrorType = NoError | ImageAllocationFail | ImageSaveFail | ImageUnsupportedFormat

text \<open>The drawing surface that \<^verbatim>\<open>destPainter\<close> points to.\<close>

datatype Surface = ExternalPainter nat | PrinterPainter | ImagePainter

text \<open>
  The task object. \<open>mJob\<close> is the job handle (the surface the job is bound to),
  \<open>canceled\<close> is the flag of the base class that \<^verbatim>\<open>isCanceled()\<close> reads.
\<close>

record Task =
  mMapSettings :: MapSettings
  mPainter :: "nat option"
  mFileName :: string
  mFileFormat :: string
  mForceRaster :: bool
  mSaveWorldFile :: bool
  mAnnotations :: "QgsAnnotation option list"
  mDecorations :: "nat list"
  mError :: ErrorType
  mJob :: "Surface option"
  canceled :: bool

text \<open>
  Calls into collaborators are recorded as events, in the order in which the task
  issues them. A run returns the list of the events it issued.
\<close>

datatype Event =
    PrinterSetup string real real real
  | NewPainter Surface
  | NewImage QSize
  | ImageSetDotsPerMeter real real
  | JobCreate Surface
  | JobRenderSynchronously Surface
  | JobCancelWithoutBlocking Surface
  | JobDestroy
  | DecorationRender nat Surface
  | PainterSave Surface
  | PainterSetAntialiasing Surface bool
  | PainterTranslate Surface real real
  | AnnotationRender nat Surface
  | PainterRestore Surface
  | PainterEnd Surface
  | PrinterDrawImage "QSize option"
  | GdalPdfDpiOption "real option"
  | GdalOpenUpdate string
  | GdalSetGeoTransform "real list"
  | GdalSetProjection string
  | ImageSave string string
  | WorldFileOpen string
  | WorldFileWrite string "real list"

text \<open>
  What the task cannot decide itself: the compile-time switch \<^verbatim>\<open>QT_NO_PRINTER\<close>
  (\<open>hasPrinter\<close> is its negation), the outcomes of allocation and file operations,
  the \<^verbatim>\<open>cancel()\<close> calls of other threads, the file system's answer for
  \<^verbatim>\<open>QFileInfo::absolutePath()\<close>, and the two helpers of
  \<^verbatim>\<open>QgsMapSettingsUtils\<close>, which are outside the given source. The content of the
  world file is a list of numbers, one per line (the code writes them as decimal text).

  \<open>cancelCalls k\<close> says that a concurrent \<^verbatim>\<open>cancel()\<close> takes effect at point
  \<open>k\<close> of the run: 0 is before the job handle is created, 1 is while the handle
  exists, 2 is after the handle is cleared, and \<open>3 + i\<close> is before the
  cancellation check of iteration \<open>i\<close> of the annotation loop.
\<close>

record Env =
  hasPrinter :: bool
  imageIsNull :: bool
  imageSaveOk :: bool
  gdalOpenOk :: bool
  worldFileOpenOk :: bool
  cancelCalls :: "nat \<Rightarrow> bool"
  absolutePath :: "string \<Rightarrow> string"
  worldFileParameters :: "MapSettings \<Rightarrow> real \<times> real \<times> real \<times> real \<times> real \<times> real"
  worldFileContent :: "MapSettings \<Rightarrow> real list"

text \<open>
  A run returns a boolean, or it is aborted by an out-of-range character access
  (\<^verbatim>\<open>QString::at\<close> on an empty suffix).
\<close>

datatype RunResult = Returned bool | Aborted

section \<open>Construction and configuration\<close>

text \<open>
  Modelled from the spec: the default member initialisers are in the header. The two
  output modes are exclusive: the file constructor leaves the painter null, the
  painter constructor leaves file name and format empty; the error code starts as
  "none", no job exists and the task is not canceled.
\<close>

definition QgsMapRendererTask_file :: "MapSettings \<Rightarrow> string \<Rightarrow> string \<Rightarrow> bool \<Rightarrow> Task" where
  "QgsMapRendererTask_file ms fileName fileFormat forceRaster =
     \<lparr> mMapSettings = ms, mPainter = None, mFileName = fileName, mFileFormat = fileFormat,
       mForceRaster = forceRaster, mSaveWorldFile = False, mAnnotations = [],
       mDecorations = [], mError = NoError, mJob = None, canceled = False \<rparr>"

definition QgsMapRendererTask_painter :: "MapSettings \<Rightarrow> nat option \<Rightarrow> Task" where
  "QgsMapRendererTask_painter ms p =
     \<lparr> mMapSettings = ms, mPainter = p, mFileName = [], mFileFormat = [],
       mForceRaster = False, mSaveWorldFile = False, mAnnotations = [],
       mDecorations = [], mError = NoError, mJob = None, canceled = False \<rparr>"

text \<open>The old clones are destroyed; every given annotation is cloned.\<close>

definition addAnnotations :: "QgsAnnotation list \<Rightarrow> Task \<Rightarrow> Task" where
  "addAnnotations annotations t = t\<lparr>mAnnotations := map Some annotations\<rparr>"

definition addDecorations :: "nat list \<Rightarrow> Task \<Rightarrow> Task" where
  "addDecorations decorations t = t\<lparr>mDecorations := decorations\<rparr>"

section \<open>Cancellation\<close>

text \<open>
  Modelled from the spec: \<^verbatim>\<open>QgsTask::cancel()\<close> and \<^verbatim>\<open>QgsTask::isCanceled()\<close>
  belong to the base class, which is outside the given source. The spec has the
  first mark the task canceled and the second read that mark.
\<close>

definition QgsTask_cancel :: "Task \<Rightarrow> Task" where
  "QgsTask_cancel t = t\<lparr>canceled := True\<rparr>"

text \<open>
  Modelled from the spec: \<^verbatim>\<open>QgsTask::isCanceled()\<close>, outside the given source, reads
  the mark that \<^verbatim>\<open>QgsTask::cancel()\<close> sets.
\<close>

definition isCanceled :: "Task \<Rightarrow> bool" where
  "isCanceled t = canceled t"

text \<open>
  \<^verbatim>\<open>QgsMapRendererTask::cancel()\<close>: under the job mutex, a job that exists is asked
  to stop without blocking; then the base class's \<^verbatim>\<open>cancel()\<close> runs. The result is
  the task and the events issued.
\<close>

definition cancel :: "Task \<Rightarrow> Task \<times> Event list" where
  "cancel t =
     (let ev = (case mJob t of Some j \<Rightarrow> [JobCancelWithoutBlocking j] | None \<Rightarrow> [])
      in (QgsTask_cancel t, ev))"

definition concurrentCancel :: "Env \<Rightarrow> nat \<Rightarrow> Task \<Rightarrow> Task \<times> Event list" where
  "concurrentCancel env k t = (if cancelCalls env k then cancel t else (t, []))"

section \<open>The run\<close>

subsection \<open>Choosing the drawing surface (lines 77 to 127)\<close>

text \<open>
  For the format \<^verbatim>\<open>PDF\<close> a printer is set up (or, without printer support, the
  run fails at once); unless a raster is forced, the painter draws on the printer.
  When no painter is at hand after that, an image of the output size is allocated
  and painted on; a null image is an allocation failure. The result is the error, or
  the surface together with the image (\<open>None\<close> is the null image the variable
  \<^verbatim>\<open>img\<close> starts as). The guard of line 126 cannot fire: a painter exists on every
  path that reaches it. Numbers are recorded as the code computes them, before the
  implicit conversion to \<^verbatim>\<open>int\<close> that the setters of Qt apply.
\<close>

definition resolveSurface :: "Env \<Rightarrow> Task \<Rightarrow> (ErrorType + Surface \<times> QSize option) \<times> Event list" where
  "resolveSurface env t =
     (let ms = mMapSettings t;
          pdf = (mFileFormat t = ''PDF'')
      in if pdf \<and> \<not> hasPrinter env then (Inl ImageUnsupportedFormat, [])
         else
           let evPrinter =
                 (if pdf
                  then [PrinterSetup (mFileName t)
                          (real_of_int (width (outputSize ms)) * 25.4 / outputDpi ms)
                          (real_of_int (height (outputSize ms)) * 25.4 / outputDpi ms)
                          (outputDpi ms)]
                  else []);
               destPainter =
                 (if pdf \<and> \<not> mForceRaster t then Some PrinterPainter
                  else map_option ExternalPainter (mPainter t));
               evPainter = (if pdf \<and> \<not> mForceRaster t then [NewPainter PrinterPainter] else [])
           in case destPainter of
                Some p \<Rightarrow> (Inr (p, None), evPrinter @ evPainter)
              | None \<Rightarrow>
                  if imageIsNull env
                  then (Inl ImageAllocationFail, evPrinter @ evPainter @ [NewImage (outputSize ms)])
                  else (Inr (ImagePainter, Some (outputSize ms)),
                        evPrinter @ evPainter @
                        [NewImage (outputSize ms),
                         ImageSetDotsPerMeter (1000 * outputDpi ms / 25.4) (1000 * outputDpi ms / 25.4),
                         NewPainter ImagePainter]))"

subsection \<open>The render job (lines 129 to 136)\<close>

text \<open>
  The handle is set and cleared under the mutex, so a concurrent \<^verbatim>\<open>cancel()\<close>
  sees it either absent (points 0 and 2) or present (point 1).
\<close>

definition renderJob :: "Env \<Rightarrow> Surface \<Rightarrow> Task \<Rightarrow> Task \<times> Event list" where
  "renderJob env destPainter t =
     (let (t0, ev0) = concurrentCancel env 0 t;
          t1 = t0\<lparr>mJob := Some destPainter\<rparr>;
          (t2, ev1) = concurrentCancel env 1 t1;
          t3 = t2\<lparr>mJob := None\<rparr>;
          (t4, ev2) = concurrentCancel env 2 t3
      in (t4, ev0 @ [JobCreate destPainter, JobRenderSynchronously destPainter] @ ev1
                @ [JobDestroy] @ ev2))"

subsection \<open>Decorations and annotations (lines 141 to 184)\<close>

definition renderDecorations :: "Surface \<Rightarrow> nat list \<Rightarrow> Event list" where
  "renderDecorations destPainter decorations = map (\<lambda>d. DecorationRender d destPainter) decorations"

text \<open>
  The anchor of an annotation (\<^verbatim>\<open>itemX\<close>, \<^verbatim>\<open>itemY\<close>, lines 168 to 178). Where
  the extent has width or height zero the C++ division yields a non-finite value; the
  quotient here is then HOL's \<open>0\<close>, and the model says nothing about that case.
\<close>

definition annotationItemPos :: "MapSettings \<Rightarrow> QgsAnnotation \<Rightarrow> real \<times> real" where
  "annotationItemPos ms a =
     (if hasFixedMapPosition a
      then (real_of_int (width (outputSize ms)) * (fst (mapPosition a) - xMinimum (extent ms))
              / rectWidth (extent ms),
            real_of_int (height (outputSize ms))
              * (1 - (snd (mapPosition a) - yMinimum (extent ms)) / rectHeight (extent ms)))
      else (fst (relativePosition a) * real_of_int (width (outputSize ms)),
            snd (relativePosition a) * real_of_int (height (outputSize ms))))"

text \<open>The calls that draw one annotation (lines 165 to 183); \<open>i\<close> is its index in the list.\<close>

definition drawAnnotation :: "MapSettings \<Rightarrow> Surface \<Rightarrow> nat \<Rightarrow> QgsAnnotation \<Rightarrow> Event list" where
  "drawAnnotation ms destPainter i a =
     [PainterSave destPainter,
      PainterSetAntialiasing destPainter (antialiasing ms),
      PainterTranslate destPainter (fst (annotationItemPos ms a)) (snd (annotationItemPos ms a)),
      AnnotationRender i destPainter,
      PainterRestore destPainter]"

text \<open>
  The annotation loop. The boolean is \<open>False\<close> when the loop was left by the
  \<^verbatim>\<open>return false\<close> of line 154.
\<close>

fun renderAnnotations :: "Env \<Rightarrow> Surface \<Rightarrow> nat \<Rightarrow> QgsAnnotation option list \<Rightarrow> Task
    \<Rightarrow> bool \<times> Task \<times> Event list" where
  "renderAnnotations env destPainter i [] t = (True, t, [])"
| "renderAnnotations env destPainter i (annotation # rest) t =
     (let (t1, evC) = concurrentCancel env (3 + i) t
      in if isCanceled t1 then (False, t1, evC)
         else
           let ev =
                 (case annotation of
                    None \<Rightarrow> []
                  | Some a \<Rightarrow>
                      if \<not> isVisible a then []
                      else if mapLayer a \<noteq> None \<and> the (mapLayer a) \<notin> set (layers (mMapSettings t1)) then []
                      else drawAnnotation (mMapSettings t1) destPainter i a);
               (completed, t2, evRest) = renderAnnotations env destPainter (Suc i) rest t1
           in (completed, t2, evC @ ev @ evRest))"

subsection \<open>Writing the output (lines 186 to 270)\<close>

text \<open>
  \<^verbatim>\<open>QFileInfo\<close> of Qt, as documented: the file name is what follows the last
  \<open>/\<close>; \<^verbatim>\<open>baseName()\<close> is the file name up to its first \<open>.\<close>, \<^verbatim>\<open>suffix()\<close> is
  what follows its last \<open>.\<close> (empty when it has none), \<^verbatim>\<open>completeBaseName()\<close> is
  the file name up to its last \<open>.\<close>.
\<close>

definition fileNameOf :: "string \<Rightarrow> string" where
  "fileNameOf path = rev (takeWhile (\<lambda>c. c \<noteq> CHR ''/'') (rev path))"

definition baseName :: "string \<Rightarrow> string" where
  "baseName path = takeWhile (\<lambda>c. c \<noteq> CHR ''.'') (fileNameOf path)"

definition suffix :: "string \<Rightarrow> string" where
  "suffix path =
     (if CHR ''.'' \<in> set (fileNameOf path)
      then rev (takeWhile (\<lambda>c. c \<noteq> CHR ''.'') (rev (fileNameOf path)))
      else [])"

definition completeBaseName :: "string \<Rightarrow> string" where
  "completeBaseName path =
     (if CHR ''.'' \<in> set (fileNameOf path)
      then rev (tl (dropWhile (\<lambda>c. c \<noteq> CHR ''.'') (rev (fileNameOf path))))
      else fileNameOf path)"

text \<open>
  The name of the world file (lines 258 and 259). \<^verbatim>\<open>outputSuffix.at( 0 )\<close> is out of
  range for an empty suffix: the result is then \<open>None\<close>.
\<close>

definition worldFileName :: "Env \<Rightarrow> string \<Rightarrow> string option" where
  "worldFileName env fileName =
     (let outputSuffix = suffix fileName
      in if outputSuffix = [] then None
         else Some (absolutePath env fileName @ ''/'' @ baseName fileName @ ''.''
                    @ [hd outputSuffix, last outputSuffix] @ ''w''))"

text \<open>
  The transform handed to GDAL (lines 205 to 211, and again 244 to 250): the origin
  terms are moved by half of \<open>a\<close> and \<open>b\<close>, respectively half of \<open>d\<close> and \<open>e\<close>.
\<close>

definition geoTransform :: "real \<times> real \<times> real \<times> real \<times> real \<times> real \<Rightarrow> real list" where
  "geoTransform params =
     (case params of (a, b, c, d, e, f) \<Rightarrow>
        (let c1 = c - 0.5 * a;
             c2 = c1 - 0.5 * b;
             f1 = f - 0.5 * d;
             f2 = f1 - 0.5 * e
         in [c2, a, b, f2, d, e]))"

text \<open>Reopening the written file and stamping transform and projection on it.\<close>

definition embedGeoreference :: "Env \<Rightarrow> Task \<Rightarrow> Event list" where
  "embedGeoreference env t =
     [GdalSetGeoTransform (geoTransform (worldFileParameters env (mMapSettings t))),
      GdalSetProjection (destinationCrsWkt (mMapSettings t))]"

text \<open>Lines 231 to 268: the georeference of a raster file that has been saved.\<close>

definition saveWorldFile :: "Env \<Rightarrow> Task \<Rightarrow> RunResult \<times> Event list" where
  "saveWorldFile env t =
     (let outputSuffix = suffix (mFileName t);
          tiff = (outputSuffix = ''tif'' \<or> outputSuffix = ''tiff'');
          skipWorldFile = (tiff \<and> gdalOpenOk env);
          evGdal = (if tiff
                    then GdalOpenUpdate (mFileName t)
                         # (if gdalOpenOk env then embedGeoreference env t else [])
                    else [])
      in if skipWorldFile then (Returned True, evGdal)
         else case worldFileName env (mFileName t) of
                None \<Rightarrow> (Aborted, evGdal)
              | Some name \<Rightarrow>
                  (Returned True,
                   evGdal @ WorldFileOpen name
                     # (if worldFileOpenOk env
                        then [WorldFileWrite name (worldFileContent env (mMapSettings t))]
                        else [])))"

definition finalizeOutput :: "Env \<Rightarrow> Surface \<Rightarrow> QSize option \<Rightarrow> Task \<Rightarrow> RunResult \<times> Task \<times> Event list" where
  "finalizeOutput env destPainter img t =
     (if mFileName t = [] then (Returned True, t, [])
      else if mForceRaster t \<and> mFileFormat t = ''PDF'' then
        (if hasPrinter env
         then (Returned True, t,
               [PainterEnd destPainter, PrinterDrawImage img]
               @ (if mSaveWorldFile t
                  then [GdalPdfDpiOption (Some (outputDpi (mMapSettings t))),
                        GdalOpenUpdate (mFileName t)]
                       @ (if gdalOpenOk env then embedGeoreference env t else [])
                       @ [GdalPdfDpiOption None]
                  else []))
         else (Returned False, t\<lparr>mError := ImageUnsupportedFormat\<rparr>, [PainterEnd destPainter]))
      else if mFileFormat t \<noteq> ''PDF'' then
        (if \<not> (img \<noteq> None \<and> imageSaveOk env)
         then (Returned False, t\<lparr>mError := ImageSaveFail\<rparr>,
               [PainterEnd destPainter, ImageSave (mFileName t) (mFileFormat t)])
         else if mSaveWorldFile t
         then (case saveWorldFile env t of
                 (res, evW) \<Rightarrow>
                   (res, t, [PainterEnd destPainter, ImageSave (mFileName t) (mFileFormat t)] @ evW))
         else (Returned True, t, [PainterEnd destPainter, ImageSave (mFileName t) (mFileFormat t)]))
      else (Returned True, t, [PainterEnd destPainter]))"

subsection \<open>\<^verbatim>\<open>QgsMapRendererTask::run()\<close>\<close>

definition run :: "Env \<Rightarrow> Task \<Rightarrow> RunResult \<times> Task \<times> Event list" where
  "run env t =
     (case resolveSurface env t of
        (Inl err, evS) \<Rightarrow> (Returned False, t\<lparr>mError := err\<rparr>, evS)
      | (Inr (destPainter, img), evS) \<Rightarrow>
          (case renderJob env destPainter t of
             (t1, evJ) \<Rightarrow>
               if isCanceled t1 then (Returned False, t1, evS @ evJ)
               else
                 (case renderAnnotations env destPainter 0 (mAnnotations t1) t1 of
                    (completed, t2, evA) \<Rightarrow>
                      let evD = renderDecorations destPainter (mDecorations t1)
                      in if \<not> completed then (Returned False, t2, evS @ evJ @ evD @ evA)
                         else
                           (case finalizeOutput env destPainter img t2 of
                              (res, t3, evF) \<Rightarrow> (res, t3, evS @ evJ @ evD @ evA @ evF)))))"

definition runResult :: "Env \<Rightarrow> Task \<Rightarrow> RunResult" where
  "runResult env t = fst (run env t)"

definition runTask :: "Env \<Rightarrow> Task \<Rightarrow> Task" where
  "runTask env t = fst (snd (run env t))"

definition runEvents :: "Env \<Rightarrow> Task \<Rightarrow> Event list" where
  "runEvents env t = snd (snd (run env t))"

text \<open>\<^verbatim>\<open>finished( result )\<close>: the signal the task emits after the run.\<close>

datatype Signal = RenderingComplete | ErrorOccurred ErrorType

definition finished :: "bool \<Rightarrow> Task \<Rightarrow> Signal \<times> Task" where
  "finished result t =
     (if result then RenderingComplete else ErrorOccurred (mError t), t\<lparr>mAnnotations := []\<rparr>)"

section \<open>Observing a run\<close>

text \<open>Which events are render calls of decorations and of annotations.\<close>

fun isDecorationRender :: "Event \<Rightarrow> bool" where
  "isDecorationRender (DecorationRender d p) = True"
| "isDecorationRender e = False"

fun isAnnotationRender :: "Event \<Rightarrow> bool" where
  "isAnnotationRender (AnnotationRender i p) = True"
| "isAnnotationRender e = False"

fun rendersAnnotation :: "nat \<Rightarrow> Event \<Rightarrow> bool" where
  "rendersAnnotation i (AnnotationRender j p) = (j = i)"
| "rendersAnnotation i e = False"

text \<open>How often the render operation of the annotation at index \<open>i\<close> is invoked.\<close>

definition renderCount :: "nat \<Rightarrow> Event list \<Rightarrow> nat" where
  "renderCount i evs = length (filter (rendersAnnotation i) evs)"

text \<open>
  The events of the output phase: closing the surface, merging the raster into the
  page, saving the image, and every access to GDAL or to the world file.
\<close>

fun isOutputEvent :: "Event \<Rightarrow> bool" where
  "isOutputEvent (PainterEnd p) = True"
| "isOutputEvent (PrinterDrawImage img) = True"
| "isOutputEvent (GdalPdfDpiOption v) = True"
| "isOutputEvent (GdalOpenUpdate f) = True"
| "isOutputEvent (GdalSetGeoTransform g) = True"
| "isOutputEvent (GdalSetProjection w) = True"
| "isOutputEvent (ImageSave f fmt) = True"
| "isOutputEvent (WorldFileOpen f) = True"
| "isOutputEvent (WorldFileWrite f c) = True"
| "isOutputEvent e = False"

fun isGeoTransformWrite :: "Event \<Rightarrow> bool" where
  "isGeoTransformWrite (GdalSetGeoTransform g) = True"
| "isGeoTransformWrite e = False"

fun isWorldFileWrite :: "Event \<Rightarrow> bool" where
  "isWorldFileWrite (WorldFileWrite f c) = True"
| "isWorldFileWrite e = False"

fun isWorldFileOpen :: "Event \<Rightarrow> bool" where
  "isWorldFileOpen (WorldFileOpen f) = True"
| "isWorldFileOpen e = False"

fun isJobCancel :: "Event \<Rightarrow> bool" where
  "isJobCancel (JobCancelWithoutBlocking j) = True"
| "isJobCancel e = False"

text \<open>
  The test of lines 156 to 163, read positively: the entry is not null, the annotation
  is visible, and its layer, if it has one, is among the layers of the settings.
\<close>

definition annotationPasses :: "MapSettings \<Rightarrow> QgsAnnotation option \<Rightarrow> bool" where
  "annotationPasses ms annotation =
     (case annotation of
        None \<Rightarrow> False
      | Some a \<Rightarrow> isVisible a \<and> (mapLayer a = None \<or> the (mapLayer a) \<in> set (layers ms)))"

section \<open>The helper for the transform, after the spec\<close>

text \<open>
  Modelled from the spec: \<^verbatim>\<open>QgsMapSettingsUtils::worldFileParameters\<close> is outside
  the given source. The spec (section 4.1) fixes the pixel width as
  \<open>a = extent.width / outputSize.width\<close>; what it says of the other five terms is
  not definite, so they are taken from the parameter \<open>others\<close>, in the order
  \<open>(b, c, d, e, f)\<close>.
\<close>

definition specWorldFileParameters ::
    "(MapSettings \<Rightarrow> real \<times> real \<times> real \<times> real \<times> real) \<Rightarrow> MapSettings
     \<Rightarrow> real \<times> real \<times> real \<times> real \<times> real \<times> real" where
  "specWorldFileParameters others ms =
     (case others ms of (b, c, d, e, f) \<Rightarrow>
        (rectWidth (extent ms) / real_of_int (width (outputSize ms)), b, c, d, e, f))"

section \<open>Example values\<close>

text \<open>
  The example of the spec's section 8: extent (0, 0, 100, 100) drawn at 200 by 100
  pixels, not rotated.
\<close>

definition exampleSettings :: MapSettings where
  "exampleSettings =
     \<lparr> extent = \<lparr> xMinimum = 0, yMinimum = 0, xMaximum = 100, yMaximum = 100 \<rparr>,
       outputSize = \<lparr> width = 200, height = 100 \<rparr>,
       outputDpi = 96,
       destinationCrsWkt = ''GEOGCS'',
       layers = [1, 2],
       rotation = 0,
       antialiasing = True \<rparr>"

definition exampleOthers :: "MapSettings \<Rightarrow> real \<times> real \<times> real \<times> real \<times> real" where
  "exampleOthers ms =
     (0, xMinimum (extent ms), rectHeight (extent ms) / real_of_int (height (outputSize ms)), 0,
      yMaximum (extent ms))"

text \<open>The directory part of a file name that is already absolute.\<close>

definition directoryOf :: "string \<Rightarrow> string" where
  "directoryOf path = rev (tl (dropWhile (\<lambda>c. c \<noteq> CHR ''/'') (rev path)))"

text \<open>
  An environment in which everything succeeds and nobody cancels, and variants of it.
\<close>

definition exampleEnv :: Env where
  "exampleEnv =
     \<lparr> hasPrinter = True, imageIsNull = False, imageSaveOk = True, gdalOpenOk = True,
       worldFileOpenOk = True, cancelCalls = (\<lambda>k. False), absolutePath = directoryOf,
       worldFileParameters = specWorldFileParameters exampleOthers,
       worldFileContent = (\<lambda>ms. []) \<rparr>"

definition noPrinterEnv :: Env where
  "noPrinterEnv = exampleEnv\<lparr>hasPrinter := False\<rparr>"

definition nullImageEnv :: Env where
  "nullImageEnv = exampleEnv\<lparr>imageIsNull := True\<rparr>"

definition readOnlyEnv :: Env where
  "readOnlyEnv = exampleEnv\<lparr>gdalOpenOk := False, worldFileOpenOk := False\<rparr>"

definition saveFailEnv :: Env where
  "saveFailEnv = exampleEnv\<lparr>imageSaveOk := False\<rparr>"

definition sidecarEnv :: Env where
  "sidecarEnv = exampleEnv\<lparr>gdalOpenOk := False\<rparr>"

definition centerAnnotation :: QgsAnnotation where
  "centerAnnotation =
     \<lparr> isVisible = True, mapLayer = Some 1, hasFixedMapPosition = True,
       mapPosition = (50, 50), relativePosition = (0, 0) \<rparr>"

definition cornerAnnotation :: QgsAnnotation where
  "cornerAnnotation =
     \<lparr> isVisible = True, mapLayer = None, hasFixedMapPosition = False,
       mapPosition = (0, 0), relativePosition = (1, 1) \<rparr>"

definition strayAnnotation :: QgsAnnotation where
  "strayAnnotation =
     \<lparr> isVisible = True, mapLayer = Some 7, hasFixedMapPosition = False,
       mapPosition = (0, 0), relativePosition = (0, 0) \<rparr>"

definition pngTask :: Task where
  "pngTask =
     addDecorations [5]
       (addAnnotations [centerAnnotation, cornerAnnotation, strayAnnotation]
          (QgsMapRendererTask_file exampleSettings ''/tmp/map.png'' ''PNG'' False))"

definition painterTask :: Task where
  "painterTask =
     addDecorations [5]
       (addAnnotations [centerAnnotation, cornerAnnotation, strayAnnotation]
          (QgsMapRendererTask_painter exampleSettings (Some 3)))"

definition pdfTask :: Task where
  "pdfTask = QgsMapRendererTask_file exampleSettings ''/tmp/map.pdf'' ''PDF'' False"

definition tifTask :: Task where
  "tifTask = (QgsMapRendererTask_file exampleSettings ''/tmp/map.tif'' ''GTiff'' False)
               \<lparr>mSaveWorldFile := True\<rparr>"

definition dottedTask :: Task where
  "dottedTask = (QgsMapRendererTask_file exampleSettings ''/tmp/map.v2.png'' ''PNG'' False)
                  \<lparr>mSaveWorldFile := True\<rparr>"

section \<open>The phases of a run\<close>

text \<open>
  A cancel request changes the flag only; the events of each phase are of that phase's
  kinds only. The lemmas take the kind as a predicate \<open>P\<close> that the phase's events
  do not satisfy.
\<close>

lemma fst_cancel: "fst (cancel t) = t\<lparr>canceled := True\<rparr>"
  by (simp add: cancel_def QgsTask_cancel_def)

lemma snd_cancel: "snd (cancel t) = (case mJob t of Some j \<Rightarrow> [JobCancelWithoutBlocking j] | None \<Rightarrow> [])"
  by (simp add: cancel_def)

lemma fst_concurrentCancel:
  "fst (concurrentCancel env k t) = t\<lparr>canceled := (canceled t \<or> cancelCalls env k)\<rparr>"
  by (simp add: concurrentCancel_def fst_cancel)

lemma filter_concurrentCancel:
  assumes "\<And>j. \<not> P (JobCancelWithoutBlocking j)"
  shows "filter P (snd (concurrentCancel env k t)) = []"
  using assms by (simp add: concurrentCancel_def snd_cancel split: option.splits)

lemma fst_renderJob:
  "fst (renderJob env p t) =
     t\<lparr>mJob := None,
       canceled := (canceled t \<or> cancelCalls env 0 \<or> cancelCalls env 1 \<or> cancelCalls env 2)\<rparr>"
  by (simp add: renderJob_def fst_concurrentCancel split_beta Let_def)

lemma filter_renderJob:
  assumes "\<And>j. \<not> P (JobCancelWithoutBlocking j)" "\<And>j. \<not> P (JobCreate j)"
    "\<And>j. \<not> P (JobRenderSynchronously j)" "\<not> P JobDestroy"
  shows "filter P (snd (renderJob env p t)) = []"
  using assms by (simp add: renderJob_def split_beta Let_def filter_concurrentCancel)

lemma filter_resolveSurface:
  assumes "\<And>a b c d. \<not> P (PrinterSetup a b c d)" "\<And>s. \<not> P (NewPainter s)"
    "\<And>s. \<not> P (NewImage s)" "\<And>a b. \<not> P (ImageSetDotsPerMeter a b)"
  shows "filter P (snd (resolveSurface env t)) = []"
  using assms by (simp add: resolveSurface_def Let_def split: option.splits)

lemma filter_renderDecorations:
  assumes "\<And>d s. \<not> P (DecorationRender d s)"
  shows "filter P (renderDecorations p ds) = []"
  using assms by (induction ds) (simp_all add: renderDecorations_def)

lemma renderAnnotations_task:
  "renderAnnotations env p i as t = (c, t', evs) \<Longrightarrow>
     t' = t\<lparr>canceled := canceled t'\<rparr> \<and> (canceled t \<longrightarrow> canceled t')"
proof (induction as arbitrary: i t c t' evs)
  case Nil
  then show ?case by simp
next
  case (Cons a as)
  obtain t1 evC where cc: "concurrentCancel env (3 + i) t = (t1, evC)"
    by (cases "concurrentCancel env (3 + i) t")
  have t1: "t1 = t\<lparr>canceled := (canceled t \<or> cancelCalls env (3 + i))\<rparr>"
    using fst_concurrentCancel [of env "3 + i" t] cc by simp
  show ?case
  proof (cases "isCanceled t1")
    case True
    with Cons.prems cc t1 show ?thesis by (auto simp: isCanceled_def)
  next
    case False
    obtain c2 t2 evRest where r: "renderAnnotations env p (Suc i) as t1 = (c2, t2, evRest)"
      by (cases "renderAnnotations env p (Suc i) as t1")
    from Cons.IH [OF r] have ih: "t2 = t1\<lparr>canceled := canceled t2\<rparr>" "canceled t1 \<longrightarrow> canceled t2"
      by simp_all
    from Cons.prems cc False r have "t' = t2" by (simp add: Let_def)
    with ih t1 False show ?thesis by (auto simp: isCanceled_def) 
  qed
qed


lemma renderCount_append: "renderCount j (xs @ ys) = renderCount j xs + renderCount j ys"
  by (simp add: renderCount_def)

lemma renderCount_filter_empty:
  "filter isAnnotationRender evs = [] \<Longrightarrow> renderCount j evs = 0"
proof -
  assume a: "filter isAnnotationRender evs = []"
  have "\<And>e. rendersAnnotation j e \<Longrightarrow> isAnnotationRender e"
    by (case_tac e) simp_all
  with a show ?thesis
    by (auto simp: renderCount_def filter_empty_conv)
qed

lemma renderCount_drawAnnotation:
  "renderCount j (drawAnnotation ms p i a) = (if j = i then 1 else 0)"
  by (simp add: renderCount_def drawAnnotation_def)

lemma renderCount_concurrentCancel: "renderCount j (snd (concurrentCancel env k t)) = 0"
  by (simp add: renderCount_def filter_concurrentCancel)

lemma renderAnnotations_Cons:
  assumes "concurrentCancel env (3 + i) t = (t1, evC)"
  shows "renderAnnotations env p i (a # as) t =
     (if isCanceled t1 then (False, t1, evC)
      else (fst (renderAnnotations env p (Suc i) as t1),
            fst (snd (renderAnnotations env p (Suc i) as t1)),
            evC @ (if annotationPasses (mMapSettings t1) a
                   then drawAnnotation (mMapSettings t1) p i (the a) else [])
                @ snd (snd (renderAnnotations env p (Suc i) as t1))))"
  using assms
  by (auto simp: Let_def split_beta annotationPasses_def split: option.splits)

lemma renderCount_renderAnnotations:
  "renderAnnotations env p i as t = (c, t', evs) \<Longrightarrow>
     renderCount j evs \<le>
       (if i \<le> j \<and> j < i + length as \<and> annotationPasses (mMapSettings t) (as ! (j - i))
        then 1 else 0)
     \<and> (c \<longrightarrow> renderCount j evs =
       (if i \<le> j \<and> j < i + length as \<and> annotationPasses (mMapSettings t) (as ! (j - i))
        then 1 else 0))"
proof (induction as arbitrary: i t c t' evs)
  case Nil
  then show ?case by (simp add: renderCount_def)
next
  case (Cons a as)
  obtain t1 evC where cc: "concurrentCancel env (3 + i) t = (t1, evC)"
    by (cases "concurrentCancel env (3 + i) t")
  have ms: "mMapSettings t1 = mMapSettings t"
    using fst_concurrentCancel [of env "3 + i" t] cc by simp
  have evC: "renderCount j evC = 0"
    using renderCount_concurrentCancel [of j env "3 + i" t] cc by simp
  show ?case
  proof (cases "isCanceled t1")
    case True
    with Cons.prems cc evC show ?thesis
      by (simp add: renderAnnotations_Cons [OF cc] del: renderAnnotations.simps)
  next
    case False
    obtain c2 t2 evRest where r: "renderAnnotations env p (Suc i) as t1 = (c2, t2, evRest)"
      by (cases "renderAnnotations env p (Suc i) as t1")
    note ih = Cons.IH [OF r, unfolded ms]
    have evs: "evs = evC @ (if annotationPasses (mMapSettings t) a
                   then drawAnnotation (mMapSettings t) p i (the a) else []) @ evRest"
      and c: "c = c2"
      using Cons.prems False r ms by (auto simp: renderAnnotations_Cons [OF cc] simp del: renderAnnotations.simps)
    have cnt: "renderCount j evs =
        (if annotationPasses (mMapSettings t) a \<and> j = i then 1 else 0) + renderCount j evRest"
      by (simp add: evs renderCount_append evC renderCount_drawAnnotation) (simp add: renderCount_def)
    show ?thesis
    proof (cases "j \<le> i")
      case True
      with ih have "renderCount j evRest = 0" by simp
      with True cnt show ?thesis by (cases "j = i") simp_all
    next
      case False
      then have "(a # as) ! (j - i) = as ! (j - Suc i)" by (simp add: nth_Cons')
      moreover from False have "i \<le> j" "j \<noteq> i" "Suc i \<le> j" by simp_all
      ultimately show ?thesis using ih cnt c by simp
    qed
  qed
qed

lemma renderAnnotations_draws:
  "renderAnnotations env p i as t = (True, t', evs) \<Longrightarrow> j < length as \<Longrightarrow>
   annotationPasses (mMapSettings t) (as ! j) \<Longrightarrow>
     \<exists>pre post. evs = pre @ drawAnnotation (mMapSettings t) p (i + j) (the (as ! j)) @ post"
proof (induction as arbitrary: i j t t' evs)
  case Nil
  then show ?case by simp
next
  case (Cons a as)
  obtain t1 evC where cc: "concurrentCancel env (3 + i) t = (t1, evC)"
    by (cases "concurrentCancel env (3 + i) t")
  have ms: "mMapSettings t1 = mMapSettings t"
    using fst_concurrentCancel [of env "3 + i" t] cc by simp
  have nc: "\<not> isCanceled t1"
    using Cons.prems(1) by (auto simp: renderAnnotations_Cons [OF cc] simp del: renderAnnotations.simps split: if_splits)
  obtain c2 t2 evRest where r: "renderAnnotations env p (Suc i) as t1 = (c2, t2, evRest)"
    by (cases "renderAnnotations env p (Suc i) as t1")
  have evs: "evs = evC @ (if annotationPasses (mMapSettings t) a
                   then drawAnnotation (mMapSettings t) p i (the a) else []) @ evRest"
    and c: "c2 = True"
    using Cons.prems(1) nc r ms by (auto simp: renderAnnotations_Cons [OF cc] simp del: renderAnnotations.simps)
  show ?case
  proof (cases j)
    case 0
    with Cons.prems(3) evs have "evs = evC @ drawAnnotation (mMapSettings t) p (i + j) (the ((a # as) ! j)) @ evRest"
      by simp
    then show ?thesis by blast
  next
    case (Suc k)
    with Cons.prems have k: "k < length as" "annotationPasses (mMapSettings t1) (as ! k)"
      by (simp_all add: ms)
    from Cons.IH [OF r [unfolded c] k] obtain pre post where
      "evRest = pre @ drawAnnotation (mMapSettings t) p (Suc i + k) (the (as ! k)) @ post"
      unfolding ms by blast
    with evs Suc have "evs = (evC @ (if annotationPasses (mMapSettings t) a
                   then drawAnnotation (mMapSettings t) p i (the a) else []) @ pre)
         @ drawAnnotation (mMapSettings t) p (i + j) (the ((a # as) ! j)) @ post"
      by simp
    then show ?thesis by blast
  qed
qed


lemma finalizeOutput_empty:
  "mFileName t = [] \<Longrightarrow> finalizeOutput env p img t = (Returned True, t, [])"
  by (simp add: finalizeOutput_def)

lemma filter_saveWorldFile:
  assumes "\<And>f. \<not> P (GdalOpenUpdate f)" "\<And>g. \<not> P (GdalSetGeoTransform g)"
    "\<And>w. \<not> P (GdalSetProjection w)" "\<And>f. \<not> P (WorldFileOpen f)"
    "\<And>f c. \<not> P (WorldFileWrite f c)"
  shows "filter P (snd (saveWorldFile env t)) = []"
  using assms
  by (simp add: saveWorldFile_def embedGeoreference_def Let_def split: option.splits)

lemma filter_finalizeOutput:
  assumes "\<And>f. \<not> P (GdalOpenUpdate f)" "\<And>g. \<not> P (GdalSetGeoTransform g)"
    "\<And>w. \<not> P (GdalSetProjection w)" "\<And>f. \<not> P (WorldFileOpen f)"
    "\<And>f c. \<not> P (WorldFileWrite f c)" "\<And>s. \<not> P (PainterEnd s)"
    "\<And>i. \<not> P (PrinterDrawImage i)" "\<And>v. \<not> P (GdalPdfDpiOption v)"
    "\<And>f m. \<not> P (ImageSave f m)"
  shows "filter P (snd (snd (finalizeOutput env p img t))) = []"
  using assms filter_saveWorldFile [of P env t]
  by (simp add: finalizeOutput_def embedGeoreference_def split_beta)

lemma finalizeOutput_error:
  "mError (fst (snd (finalizeOutput env p img t))) = mError t
   \<or> fst (finalizeOutput env p img t) = Returned False"
  by (simp add: finalizeOutput_def split_beta)

lemma run_cases [case_names SurfaceError JobCanceled LoopCanceled Finalized]:
  obtains
    (SurfaceError) err evS where
      "resolveSurface env t = (Inl err, evS)"
      "run env t = (Returned False, t\<lparr>mError := err\<rparr>, evS)"
  | (JobCanceled) p img evS t1 evJ where
      "resolveSurface env t = (Inr (p, img), evS)"
      "renderJob env p t = (t1, evJ)" "isCanceled t1"
      "run env t = (Returned False, t1, evS @ evJ)"
  | (LoopCanceled) p img evS t1 evJ t2 evA where
      "resolveSurface env t = (Inr (p, img), evS)"
      "renderJob env p t = (t1, evJ)" "\<not> isCanceled t1"
      "renderAnnotations env p 0 (mAnnotations t1) t1 = (False, t2, evA)"
      "run env t = (Returned False, t2, evS @ evJ @ renderDecorations p (mDecorations t1) @ evA)"
  | (Finalized) p img evS t1 evJ t2 evA res t3 evF where
      "resolveSurface env t = (Inr (p, img), evS)"
      "renderJob env p t = (t1, evJ)" "\<not> isCanceled t1"
      "renderAnnotations env p 0 (mAnnotations t1) t1 = (True, t2, evA)"
      "finalizeOutput env p img t2 = (res, t3, evF)"
      "run env t = (res, t3, evS @ evJ @ renderDecorations p (mDecorations t1) @ evA @ evF)"
proof -
  obtain r evS where rs: "resolveSurface env t = (r, evS)"
    by (cases "resolveSurface env t")
  show thesis
  proof (cases r)
    case (Inl err)
    with rs have "run env t = (Returned False, t\<lparr>mError := err\<rparr>, evS)"
      by (simp add: run_def)
    with rs Inl show thesis using SurfaceError by simp
  next
    case (Inr s)
    obtain p img where s: "s = (p, img)" by (cases s)
    obtain t1 evJ where rj: "renderJob env p t = (t1, evJ)"
      by (cases "renderJob env p t")
    show thesis
    proof (cases "isCanceled t1")
      case True
      with rs Inr s rj have "run env t = (Returned False, t1, evS @ evJ)"
        by (simp add: run_def)
      with rs Inr s rj True show thesis using JobCanceled by simp
    next
      case False
      obtain c t2 evA where ra: "renderAnnotations env p 0 (mAnnotations t1) t1 = (c, t2, evA)"
        by (cases "renderAnnotations env p 0 (mAnnotations t1) t1")
      show thesis
      proof (cases c)
        case False
        with rs Inr s rj \<open>\<not> isCanceled t1\<close> ra
        have "run env t = (Returned False, t2, evS @ evJ @ renderDecorations p (mDecorations t1) @ evA)"
          by (simp add: run_def)
        with rs Inr s rj \<open>\<not> isCanceled t1\<close> ra False show thesis using LoopCanceled by simp
      next
        case True
        obtain res t3 evF where fo: "finalizeOutput env p img t2 = (res, t3, evF)"
          by (cases "finalizeOutput env p img t2")
        with rs Inr s rj \<open>\<not> isCanceled t1\<close> ra True
        have "run env t = (res, t3, evS @ evJ @ renderDecorations p (mDecorations t1) @ evA @ evF)"
          by (simp add: run_def)
        with rs Inr s rj \<open>\<not> isCanceled t1\<close> ra True fo show thesis using Finalized by simp
      qed
    qed
  qed
qed

text \<open>Annotation renders are counted in the annotation loop alone.\<close>

lemma renderCount_resolveSurface: "renderCount i (snd (resolveSurface env t)) = 0"
  by (rule renderCount_filter_empty) (simp add: filter_resolveSurface)

lemma renderCount_renderJob: "renderCount i (snd (renderJob env p t)) = 0"
  by (rule renderCount_filter_empty) (simp add: filter_renderJob)

lemma renderCount_renderDecorations: "renderCount i (renderDecorations p ds) = 0"
  by (rule renderCount_filter_empty) (simp add: filter_renderDecorations)

lemma renderCount_finalizeOutput: "renderCount i (snd (snd (finalizeOutput env p img t))) = 0"
  by (rule renderCount_filter_empty) (simp add: filter_finalizeOutput)

lemma renderJob_keeps:
  "renderJob env p t = (t1, evJ) \<Longrightarrow>
     mAnnotations t1 = mAnnotations t \<and> mMapSettings t1 = mMapSettings t
     \<and> mFileName t1 = mFileName t \<and> mFileFormat t1 = mFileFormat t
     \<and> mSaveWorldFile t1 = mSaveWorldFile t \<and> mForceRaster t1 = mForceRaster t
     \<and> mError t1 = mError t"
  using fst_renderJob [of env p t] by simp

lemma renderAnnotations_keeps:
  "renderAnnotations env p i as t = (c, t', evs) \<Longrightarrow>
     mMapSettings t' = mMapSettings t
     \<and> mFileName t' = mFileName t \<and> mFileFormat t' = mFileFormat t
     \<and> mSaveWorldFile t' = mSaveWorldFile t \<and> mForceRaster t' = mForceRaster t
     \<and> mError t' = mError t"
proof -
  assume "renderAnnotations env p i as t = (c, t', evs)"
  then have "t' = t\<lparr>canceled := canceled t'\<rparr>" by (simp add: renderAnnotations_task)
  then have "mMapSettings t' = mMapSettings (t\<lparr>canceled := canceled t'\<rparr>)"
    "mFileName t' = mFileName (t\<lparr>canceled := canceled t'\<rparr>)"
    "mFileFormat t' = mFileFormat (t\<lparr>canceled := canceled t'\<rparr>)"
    "mSaveWorldFile t' = mSaveWorldFile (t\<lparr>canceled := canceled t'\<rparr>)"
    "mForceRaster t' = mForceRaster (t\<lparr>canceled := canceled t'\<rparr>)"
    "mError t' = mError (t\<lparr>canceled := canceled t'\<rparr>)"
    by simp_all
  then show ?thesis by simp
qed

lemma renderCount_run:
  "renderCount i (runEvents env t) \<le>
     (if i < length (mAnnotations t) \<and> annotationPasses (mMapSettings t) (mAnnotations t ! i)
      then 1 else 0)
   \<and> (runResult env t \<noteq> Returned False \<longrightarrow>
        renderCount i (runEvents env t) =
          (if i < length (mAnnotations t) \<and> annotationPasses (mMapSettings t) (mAnnotations t ! i)
           then 1 else 0))"
proof (cases rule: run_cases [of env t])
  case (SurfaceError err evS)
  then show ?thesis
    using renderCount_resolveSurface [of i env t]
    by (simp add: runEvents_def runResult_def)
next
  case (JobCanceled p img evS t1 evJ)
  then show ?thesis
    using renderCount_resolveSurface [of i env t] renderCount_renderJob [of i env p t]
    by (simp add: runEvents_def runResult_def renderCount_append)
next
  case (LoopCanceled p img evS t1 evJ t2 evA)
  note k = renderJob_keeps [OF LoopCanceled(2)]
  from renderCount_renderAnnotations [OF LoopCanceled(4), of i] LoopCanceled
  show ?thesis
    using renderCount_resolveSurface [of i env t] renderCount_renderJob [of i env p t]
      renderCount_renderDecorations [of i p "mDecorations t1"]
    by (simp add: runEvents_def runResult_def renderCount_append k)
next
  case (Finalized p img evS t1 evJ t2 evA res t3 evF)
  note k = renderJob_keeps [OF Finalized(2)]
  from renderCount_renderAnnotations [OF Finalized(4), of i] Finalized
  show ?thesis
    using renderCount_resolveSurface [of i env t] renderCount_renderJob [of i env p t]
      renderCount_renderDecorations [of i p "mDecorations t1"]
      renderCount_finalizeOutput [of i env p img t2]
    by (simp add: runEvents_def runResult_def renderCount_append k)
qed

lemma run_draws:
  assumes "runResult env t \<noteq> Returned False" "i < length (mAnnotations t)"
    "annotationPasses (mMapSettings t) (mAnnotations t ! i)"
  shows "\<exists>pre post p. runEvents env t =
           pre @ drawAnnotation (mMapSettings t) p i (the (mAnnotations t ! i)) @ post"
proof (cases rule: run_cases [of env t])
  case (SurfaceError err evS)
  with assms(1) show ?thesis by (simp add: runResult_def)
next
  case (JobCanceled p img evS t1 evJ)
  with assms(1) show ?thesis by (simp add: runResult_def)
next
  case (LoopCanceled p img evS t1 evJ t2 evA)
  with assms(1) show ?thesis by (simp add: runResult_def)
next
  case (Finalized p img evS t1 evJ t2 evA res t3 evF)
  note k = renderJob_keeps [OF Finalized(2)]
  from renderAnnotations_draws [OF Finalized(4), of i] assms(2,3) k
  obtain pre post where
    "evA = pre @ drawAnnotation (mMapSettings t) p i (the (mAnnotations t ! i)) @ post"
    by auto
  then have "runEvents env t =
      (evS @ evJ @ renderDecorations p (mDecorations t1) @ pre)
      @ drawAnnotation (mMapSettings t) p i (the (mAnnotations t ! i)) @ (post @ evF)"
    using Finalized(6) by (simp add: runEvents_def)
  then show ?thesis by blast
qed

text \<open>What the annotation loop and the output phase issue.\<close>

lemma filter_empty_notin: "filter P xs = [] \<Longrightarrow> P x \<Longrightarrow> x \<notin> set xs"
  by (auto simp: filter_empty_conv)

lemma filter_renderAnnotations:
  assumes "renderAnnotations env p i as t = (c, t', evs)"
    and "\<And>j. \<not> P (JobCancelWithoutBlocking j)" "\<And>s. \<not> P (PainterSave s)"
    "\<And>s b. \<not> P (PainterSetAntialiasing s b)" "\<And>s x y. \<not> P (PainterTranslate s x y)"
    "\<And>k s. \<not> P (AnnotationRender k s)" "\<And>s. \<not> P (PainterRestore s)"
  shows "filter P evs = []"
  using assms(1)
proof (induction as arbitrary: i t c t' evs)
  case Nil
  then show ?case by simp
next
  case (Cons a as)
  obtain t1 evC where cc: "concurrentCancel env (3 + i) t = (t1, evC)"
    by (cases "concurrentCancel env (3 + i) t")
  have evC: "filter P evC = []"
    using filter_concurrentCancel [of P env "3 + i" t] cc assms(2) by simp
  show ?case
  proof (cases "isCanceled t1")
    case True
    with Cons.prems evC show ?thesis
      by (simp add: renderAnnotations_Cons [OF cc] del: renderAnnotations.simps)
  next
    case False
    obtain c2 t2 evRest where r: "renderAnnotations env p (Suc i) as t1 = (c2, t2, evRest)"
      by (cases "renderAnnotations env p (Suc i) as t1")
    have "filter P evRest = []" by (rule Cons.IH [OF r])
    with Cons.prems False r evC assms(3-7) show ?thesis
      by (auto simp: renderAnnotations_Cons [OF cc] drawAnnotation_def
          simp del: renderAnnotations.simps)
  qed
qed

lemma geoTransform_finalizeOutput:
  "GdalSetGeoTransform g \<in> set (snd (snd (finalizeOutput env p img t))) \<Longrightarrow>
     g = geoTransform (worldFileParameters env (mMapSettings t))"
  by (auto simp: finalizeOutput_def saveWorldFile_def embedGeoreference_def Let_def split_beta
      split: if_splits option.splits)

lemma geoTransform_run:
  assumes "GdalSetGeoTransform g \<in> set (runEvents env t)"
  shows "g = geoTransform (worldFileParameters env (mMapSettings t))"
proof -
  have S: "GdalSetGeoTransform g \<notin> set (snd (resolveSurface env t))"
    by (rule filter_empty_notin [where P = isGeoTransformWrite]) (simp_all add: filter_resolveSurface)
  have J: "\<And>p. GdalSetGeoTransform g \<notin> set (snd (renderJob env p t))"
    by (rule filter_empty_notin [where P = isGeoTransformWrite]) (simp_all add: filter_renderJob)
  have D: "\<And>p ds. GdalSetGeoTransform g \<notin> set (renderDecorations p ds)"
    by (rule filter_empty_notin [where P = isGeoTransformWrite]) (simp_all add: filter_renderDecorations)
  show ?thesis
  proof (cases rule: run_cases [of env t])
    case (SurfaceError err evS)
    with assms S show ?thesis by (simp add: runEvents_def)
  next
    case (JobCanceled p img evS t1 evJ)
    with assms S J [of p] show ?thesis by (simp add: runEvents_def)
  next
    case (LoopCanceled p img evS t1 evJ t2 evA)
    have "GdalSetGeoTransform g \<notin> set evA"
      using filter_renderAnnotations [OF LoopCanceled(4), of isGeoTransformWrite]
      by (intro filter_empty_notin [where P = isGeoTransformWrite]) simp_all
    with assms S J [of p] D LoopCanceled show ?thesis by (simp add: runEvents_def)
  next
    case (Finalized p img evS t1 evJ t2 evA res t3 evF)
    have "GdalSetGeoTransform g \<notin> set evA"
      using filter_renderAnnotations [OF Finalized(4), of isGeoTransformWrite]
      by (intro filter_empty_notin [where P = isGeoTransformWrite]) simp_all
    with assms S J [of p] D Finalized have "GdalSetGeoTransform g \<in> set evF"
      by (simp add: runEvents_def)
    with geoTransform_finalizeOutput [of g env p img t2] Finalized(5)
    have "g = geoTransform (worldFileParameters env (mMapSettings t2))" by simp
    with renderAnnotations_keeps [OF Finalized(4)] renderJob_keeps [OF Finalized(2)]
    show ?thesis by simp
  qed
qed

lemma run_translates:
  assumes "runResult env t \<noteq> Returned False" "i < length (mAnnotations t)"
    "mAnnotations t ! i = Some a" "isVisible a"
    "mapLayer a = None \<or> the (mapLayer a) \<in> set (layers (mMapSettings t))"
  shows "\<exists>pre post p. runEvents env t =
           pre @ [PainterTranslate p (fst (annotationItemPos (mMapSettings t) a))
                    (snd (annotationItemPos (mMapSettings t) a)),
                  AnnotationRender i p] @ post"
proof -
  from assms(3-5) have "annotationPasses (mMapSettings t) (mAnnotations t ! i)"
    by (simp add: annotationPasses_def)
  from run_draws [OF assms(1,2) this] assms(3) obtain pre post p where
    "runEvents env t = pre @ drawAnnotation (mMapSettings t) p i a @ post"
    by auto
  then have "runEvents env t =
      (pre @ [PainterSave p, PainterSetAntialiasing p (antialiasing (mMapSettings t))])
      @ [PainterTranslate p (fst (annotationItemPos (mMapSettings t) a))
           (snd (annotationItemPos (mMapSettings t) a)),
         AnnotationRender i p] @ (PainterRestore p # post)"
    by (simp add: drawAnnotation_def)
  then show ?thesis by blast
qed

lemma no_output_without_file_name:
  assumes "mFileName t = []"
  shows "filter isOutputEvent (runEvents env t) = []"
proof (cases rule: run_cases [of env t])
  case (SurfaceError err evS)
  with filter_resolveSurface [of isOutputEvent env t] show ?thesis
    by (simp add: runEvents_def)
next
  case (JobCanceled p img evS t1 evJ)
  with filter_resolveSurface [of isOutputEvent env t] filter_renderJob [of isOutputEvent env p t]
  show ?thesis by (simp add: runEvents_def)
next
  case (LoopCanceled p img evS t1 evJ t2 evA)
  with filter_resolveSurface [of isOutputEvent env t] filter_renderJob [of isOutputEvent env p t]
    filter_renderDecorations [of isOutputEvent p "mDecorations t1"]
    filter_renderAnnotations [OF LoopCanceled(4), of isOutputEvent]
  show ?thesis by (simp add: runEvents_def)
next
  case (Finalized p img evS t1 evJ t2 evA res t3 evF)
  have "mFileName t2 = []"
    using assms renderAnnotations_keeps [OF Finalized(4)] renderJob_keeps [OF Finalized(2)]
    by simp
  with Finalized(5) have "evF = []" by (simp add: finalizeOutput_empty)
  with Finalized filter_resolveSurface [of isOutputEvent env t]
    filter_renderJob [of isOutputEvent env p t]
    filter_renderDecorations [of isOutputEvent p "mDecorations t1"]
    filter_renderAnnotations [OF Finalized(4), of isOutputEvent]
  show ?thesis by (simp add: runEvents_def)
qed

lemma suffix_Nil: "suffix [] = []"
  by (simp add: suffix_def fileNameOf_def)

lemma finalizeOutput_tiff:
  assumes "suffix (mFileName t) = ''tif'' \<or> suffix (mFileName t) = ''tiff''"
    "mFileFormat t \<noteq> ''PDF''" "mSaveWorldFile t"
    "finalizeOutput env p img t = (Returned True, t3, evF)"
  shows "length (filter isGeoTransformWrite evF) = (if gdalOpenOk env then 1 else 0)
       \<and> length (filter isWorldFileOpen evF) = (if gdalOpenOk env then 0 else 1)
       \<and> length (filter isWorldFileWrite evF) =
           (if \<not> gdalOpenOk env \<and> worldFileOpenOk env then 1 else 0)"
proof -
  from assms(1) have ne: "mFileName t \<noteq> []" using suffix_Nil by auto
  from assms(1) obtain name where n: "worldFileName env (mFileName t) = Some name"
    by (auto simp: worldFileName_def Let_def)
  from assms(4) ne assms(2,3) have
    "evF = [PainterEnd p, ImageSave (mFileName t) (mFileFormat t)] @ snd (saveWorldFile env t)"
    by (auto simp: finalizeOutput_def split_beta split: if_splits)
  moreover have "snd (saveWorldFile env t) =
      GdalOpenUpdate (mFileName t)
       # (if gdalOpenOk env then embedGeoreference env t
          else WorldFileOpen name
               # (if worldFileOpenOk env
                  then [WorldFileWrite name (worldFileContent env (mMapSettings t))] else []))"
    using assms(1) n by (auto simp: saveWorldFile_def Let_def)
  ultimately show ?thesis by (simp add: embedGeoreference_def)
qed

text \<open>
  File names. When the file name has several dots, \<open>baseName\<close> stops at the first
  one and \<open>suffix\<close> starts after the last one, so the name of the world file loses
  what lies between them; with a single dot nothing is lost.
\<close>

lemma baseName_stem:
  assumes "fileNameOf path = stem @ CHR ''.'' # rest" "CHR ''.'' \<notin> set stem"
  shows "baseName path = stem"
proof -
  have "\<And>c. c \<in> set stem \<Longrightarrow> c \<noteq> CHR ''.''" using assms(2) by auto
  then have "takeWhile (\<lambda>c. c \<noteq> CHR ''.'') (stem @ CHR ''.'' # rest) = stem"
    by (simp add: takeWhile_append2)
  with assms(1) show ?thesis by (simp add: baseName_def)
qed

lemma completeBaseName_stem:
  assumes "fileNameOf path = stem @ CHR ''.'' # ext" "CHR ''.'' \<notin> set ext"
  shows "completeBaseName path = stem" and "suffix path = ext"
proof -
  let ?P = "\<lambda>c. c \<noteq> CHR ''.''"
  have r: "rev (fileNameOf path) = rev ext @ CHR ''.'' # rev stem"
    using assms(1) by simp
  have "dropWhile ?P (rev ext @ CHR ''.'' # rev stem) = dropWhile ?P (CHR ''.'' # rev stem)"
    by (rule dropWhile_append2) (use assms(2) in auto)
  then have "dropWhile ?P (rev (fileNameOf path)) = CHR ''.'' # rev stem"
    unfolding r by simp
  then show "completeBaseName path = stem"
    using assms(1) by (simp add: completeBaseName_def)
  have "takeWhile ?P (rev ext @ CHR ''.'' # rev stem) = rev ext @ takeWhile ?P (CHR ''.'' # rev stem)"
    by (rule takeWhile_append2) (use assms(2) in auto)
  then have "takeWhile ?P (rev (fileNameOf path)) = rev ext"
    unfolding r by simp
  then show "suffix path = ext"
    using assms(1) by (simp add: suffix_def)
qed

lemma worldFileName_keeps_first_part_only:
  assumes "fileNameOf path = stem @ CHR ''.'' # middle @ CHR ''.'' # ext"
    "CHR ''.'' \<notin> set stem" "CHR ''.'' \<notin> set ext" "ext \<noteq> []"
  shows "worldFileName env path =
           Some (absolutePath env path @ ''/'' @ stem @ ''.'' @ [hd ext, last ext] @ ''w'')"
    and "completeBaseName path = stem @ CHR ''.'' # middle"
proof -
  have b: "baseName path = stem"
    using baseName_stem [of path stem "middle @ CHR ''.'' # ext"] assms(1,2) by simp
  have c: "completeBaseName path = stem @ CHR ''.'' # middle" "suffix path = ext"
    using completeBaseName_stem [of path "stem @ CHR ''.'' # middle" ext] assms(1,3) by simp_all
  from c show "completeBaseName path = stem @ CHR ''.'' # middle" by simp
  from b c assms(4) show "worldFileName env path =
           Some (absolutePath env path @ ''/'' @ stem @ ''.'' @ [hd ext, last ext] @ ''w'')"
    by (simp add: worldFileName_def)
qed

lemma worldFileName_single_dot:
  assumes "fileNameOf path = stem @ CHR ''.'' # ext"
    "CHR ''.'' \<notin> set stem" "CHR ''.'' \<notin> set ext" "ext \<noteq> []"
  shows "worldFileName env path =
           Some (absolutePath env path @ ''/'' @ completeBaseName path @ ''.''
                 @ [hd (suffix path), last (suffix path)] @ ''w'')"
  using baseName_stem [OF assms(1,2)] completeBaseName_stem [OF assms(1,3)] assms(4)
  by (simp add: worldFileName_def)

lemma worldFileName_None: "worldFileName env path = None \<longleftrightarrow> suffix path = []"
  by (simp add: worldFileName_def Let_def)

text \<open>The equations that evaluate a run on the example values.\<close>

lemmas run_eval = runResult_def runEvents_def runTask_def run_def resolveSurface_def renderJob_def
  renderDecorations_def
  concurrentCancel_def isCanceled_def finalizeOutput_def saveWorldFile_def suffix_def
  fileNameOf_def baseName_def worldFileName_def embedGeoreference_def geoTransform_def Let_def

lemmas example_eval = exampleEnv_def exampleSettings_def exampleOthers_def
  QgsMapRendererTask_file_def QgsMapRendererTask_painter_def addAnnotations_def
  addDecorations_def specWorldFileParameters_def rectWidth_def rectHeight_def directoryOf_def

text \<open>
  Exactly which annotations a run renders: those that pass the test and whose
  iteration the run reaches, that is, a surface is found and no cancellation is seen
  at the check after the job nor at the checks of the loop up to that iteration.
\<close>

lemma all_le_3_plus:
  fixes i :: nat
  shows "(\<forall>k \<le> 3 + i. P k) = (P 0 \<and> P 1 \<and> P 2 \<and> (\<forall>k \<le> i. P (3 + k)))"
proof
  assume a: "\<forall>k \<le> 3 + i. P k"
  then show "P 0 \<and> P 1 \<and> P 2 \<and> (\<forall>k \<le> i. P (3 + k))" by simp
next
  assume b: "P 0 \<and> P 1 \<and> P 2 \<and> (\<forall>k \<le> i. P (3 + k))"
  show "\<forall>k \<le> 3 + i. P k"
  proof (intro allI impI)
    fix k assume k: "k \<le> 3 + i"
    consider "k = 0" | "k = 1" | "k = 2" | "3 \<le> k" by linarith
    then show "P k"
    proof cases
      case 4
      then have "k = 3 + (k - 3)" "k - 3 \<le> i" using k by simp_all
      with b show ?thesis by metis
    qed (use b in simp_all)
  qed
qed

lemma renderCount_renderAnnotations_exact:
  "renderAnnotations env p i as t = (c, t', evs) \<Longrightarrow>
     renderCount j evs =
       (if i \<le> j \<and> j < i + length as \<and> annotationPasses (mMapSettings t) (as ! (j - i))
           \<and> \<not> canceled t \<and> (\<forall>k. i \<le> k \<and> k \<le> j \<longrightarrow> \<not> cancelCalls env (3 + k))
        then 1 else 0)"
proof (induction as arbitrary: i t c t' evs)
  case Nil
  then show ?case by (simp add: renderCount_def)
next
  case (Cons a as)
  obtain t1 evC where cc: "concurrentCancel env (3 + i) t = (t1, evC)"
    by (cases "concurrentCancel env (3 + i) t")
  have t1: "t1 = t\<lparr>canceled := (canceled t \<or> cancelCalls env (3 + i))\<rparr>"
    using fst_concurrentCancel [of env "3 + i" t] cc by simp
  have ms: "mMapSettings t1 = mMapSettings t" by (simp add: t1)
  have evC: "renderCount j evC = 0"
    using renderCount_concurrentCancel [of j env "3 + i" t] cc by simp
  show ?case
  proof (cases "isCanceled t1")
    case True
    then have stop: "canceled t \<or> cancelCalls env (3 + i)" by (simp add: isCanceled_def t1)
    from Cons.prems True evC have "renderCount j evs = 0"
      by (simp add: renderAnnotations_Cons [OF cc] del: renderAnnotations.simps)
    moreover from stop have "\<not> (i \<le> j \<and> \<not> canceled t
        \<and> (\<forall>k. i \<le> k \<and> k \<le> j \<longrightarrow> \<not> cancelCalls env (3 + k)))"
      by auto
    ultimately show ?thesis by auto
  next
    case False
    then have go: "\<not> canceled t" "\<not> cancelCalls env (3 + i)" "\<not> canceled t1"
      by (simp_all add: isCanceled_def t1)
    obtain c2 t2 evRest where r: "renderAnnotations env p (Suc i) as t1 = (c2, t2, evRest)"
      by (cases "renderAnnotations env p (Suc i) as t1")
    note ih = Cons.IH [OF r, unfolded ms]
    have evs: "evs = evC @ (if annotationPasses (mMapSettings t) a
                   then drawAnnotation (mMapSettings t) p i (the a) else []) @ evRest"
      using Cons.prems False r ms
      by (auto simp: renderAnnotations_Cons [OF cc] simp del: renderAnnotations.simps)
    have cnt: "renderCount j evs =
        (if annotationPasses (mMapSettings t) a \<and> j = i then 1 else 0) + renderCount j evRest"
      by (simp add: evs renderCount_append evC renderCount_drawAnnotation) (simp add: renderCount_def)
    show ?thesis
    proof (cases "j \<le> i")
      case True
      with ih have z: "renderCount j evRest = 0" by simp
      show ?thesis
      proof (cases "j = i")
        case True
        have "(\<forall>k. i \<le> k \<and> k \<le> i \<longrightarrow> \<not> cancelCalls env (3 + k))"
          using go(2) by (auto simp: le_antisym)
        with True cnt z go(1) show ?thesis by simp
      next
        case False
        with \<open>j \<le> i\<close> cnt z show ?thesis by simp
      qed
    next
      case False
      then have nth: "(a # as) ! (j - i) = as ! (j - Suc i)" by (simp add: nth_Cons')
      from False have ij: "i \<le> j" "j \<noteq> i" "Suc i \<le> j" by simp_all
      have q: "(\<forall>k. i \<le> k \<and> k \<le> j \<longrightarrow> \<not> cancelCalls env (3 + k))
             = (\<forall>k. Suc i \<le> k \<and> k \<le> j \<longrightarrow> \<not> cancelCalls env (3 + k))"
      proof
        assume "\<forall>k. i \<le> k \<and> k \<le> j \<longrightarrow> \<not> cancelCalls env (3 + k)"
        then show "\<forall>k. Suc i \<le> k \<and> k \<le> j \<longrightarrow> \<not> cancelCalls env (3 + k)" by auto
      next
        assume h: "\<forall>k. Suc i \<le> k \<and> k \<le> j \<longrightarrow> \<not> cancelCalls env (3 + k)"
        show "\<forall>k. i \<le> k \<and> k \<le> j \<longrightarrow> \<not> cancelCalls env (3 + k)"
        proof (intro allI impI)
          fix k assume "i \<le> k \<and> k \<le> j"
          then have "k = i \<or> (Suc i \<le> k \<and> k \<le> j)" by auto
          with h go(2) show "\<not> cancelCalls env (3 + k)" by auto
        qed
      qed
      have "canceled t1 = canceled t" using go by simp
      with ih cnt ij nth q show ?thesis by simp
    qed
  qed
qed

lemma resolveSurface_Inl_iff:
  "(\<exists>err. fst (resolveSurface env t) = Inl err) =
     ((mFileFormat t = ''PDF'' \<and> \<not> hasPrinter env)
      \<or> (mPainter t = None \<and> \<not> (mFileFormat t = ''PDF'' \<and> \<not> mForceRaster t) \<and> imageIsNull env))"
  by (auto simp: resolveSurface_def Let_def split: if_splits option.splits)

lemma renderCount_run_exact:
  "renderCount i (runEvents env t) =
     (if i < length (mAnnotations t) \<and> annotationPasses (mMapSettings t) (mAnnotations t ! i)
         \<and> \<not> (mFileFormat t = ''PDF'' \<and> \<not> hasPrinter env)
         \<and> \<not> (mPainter t = None \<and> \<not> (mFileFormat t = ''PDF'' \<and> \<not> mForceRaster t)
               \<and> imageIsNull env)
         \<and> \<not> canceled t \<and> (\<forall>k \<le> 3 + i. \<not> cancelCalls env k)
      then 1 else 0)"
proof -
  have loop: "\<And>p img evS t1 evJ c t2 evA.
      resolveSurface env t = (Inr (p, img), evS) \<Longrightarrow> renderJob env p t = (t1, evJ) \<Longrightarrow>
      \<not> isCanceled t1 \<Longrightarrow> renderAnnotations env p 0 (mAnnotations t1) t1 = (c, t2, evA) \<Longrightarrow>
      renderCount i evA =
        (if i < length (mAnnotations t) \<and> annotationPasses (mMapSettings t) (mAnnotations t ! i)
         \<and> \<not> (mFileFormat t = ''PDF'' \<and> \<not> hasPrinter env)
         \<and> \<not> (mPainter t = None \<and> \<not> (mFileFormat t = ''PDF'' \<and> \<not> mForceRaster t)
               \<and> imageIsNull env)
         \<and> \<not> canceled t \<and> (\<forall>k \<le> 3 + i. \<not> cancelCalls env k)
         then 1 else 0)"
  proof -
    fix p img evS t1 evJ c t2 evA
    assume rs: "resolveSurface env t = (Inr (p, img), evS)"
      and rj: "renderJob env p t = (t1, evJ)" and nc: "\<not> isCanceled t1"
      and ra: "renderAnnotations env p 0 (mAnnotations t1) t1 = (c, t2, evA)"
    note k = renderJob_keeps [OF rj]
    have surf: "\<not> ((mFileFormat t = ''PDF'' \<and> \<not> hasPrinter env)
      \<or> (mPainter t = None \<and> \<not> (mFileFormat t = ''PDF'' \<and> \<not> mForceRaster t) \<and> imageIsNull env))"
      using resolveSurface_Inl_iff [of env t] rs by simp
    have c1: "canceled t1 = (canceled t \<or> cancelCalls env 0 \<or> cancelCalls env 1 \<or> cancelCalls env 2)"
      using fst_renderJob [of env p t] rj by simp
    with nc have pre: "\<not> canceled t" "\<not> cancelCalls env 0" "\<not> cancelCalls env 1" "\<not> cancelCalls env 2"
      "\<not> canceled t1"
      by (simp_all add: isCanceled_def)
    have q: "(\<forall>k \<le> 3 + i. \<not> cancelCalls env k) = (\<forall>k. 0 \<le> k \<and> k \<le> i \<longrightarrow> \<not> cancelCalls env (3 + k))"
      using all_le_3_plus [of i "\<lambda>k. \<not> cancelCalls env k"] pre by simp
    from renderCount_renderAnnotations_exact [OF ra, of i] k pre surf q
    show "renderCount i evA =
        (if i < length (mAnnotations t) \<and> annotationPasses (mMapSettings t) (mAnnotations t ! i)
         \<and> \<not> (mFileFormat t = ''PDF'' \<and> \<not> hasPrinter env)
         \<and> \<not> (mPainter t = None \<and> \<not> (mFileFormat t = ''PDF'' \<and> \<not> mForceRaster t)
               \<and> imageIsNull env)
         \<and> \<not> canceled t \<and> (\<forall>k \<le> 3 + i. \<not> cancelCalls env k)
         then 1 else 0)"
      by simp
  qed
  show ?thesis
  proof (cases rule: run_cases [of env t])
    case (SurfaceError err evS)
    then have "(mFileFormat t = ''PDF'' \<and> \<not> hasPrinter env)
      \<or> (mPainter t = None \<and> \<not> (mFileFormat t = ''PDF'' \<and> \<not> mForceRaster t) \<and> imageIsNull env)"
      using resolveSurface_Inl_iff [of env t] by auto
    moreover have "renderCount i (runEvents env t) = 0"
      using SurfaceError renderCount_resolveSurface [of i env t] by (simp add: runEvents_def)
    ultimately show ?thesis by auto
  next
    case (JobCanceled p img evS t1 evJ)
    have "canceled t1 = (canceled t \<or> cancelCalls env 0 \<or> cancelCalls env 1 \<or> cancelCalls env 2)"
      using fst_renderJob [of env p t] JobCanceled(2) by simp
    with JobCanceled(3) have "canceled t \<or> \<not> (\<forall>k \<le> 3 + i. \<not> cancelCalls env k)"
      using all_le_3_plus [of i "\<lambda>k. \<not> cancelCalls env k"] by (auto simp: isCanceled_def)
    moreover have "renderCount i (runEvents env t) = 0"
      using JobCanceled renderCount_resolveSurface [of i env t] renderCount_renderJob [of i env p t]
      by (simp add: runEvents_def renderCount_append)
    ultimately show ?thesis by auto
  next
    case (LoopCanceled p img evS t1 evJ t2 evA)
    have "renderCount i (runEvents env t) = renderCount i evA"
      using LoopCanceled renderCount_resolveSurface [of i env t] renderCount_renderJob [of i env p t]
        renderCount_renderDecorations [of i p "mDecorations t1"]
      by (simp add: runEvents_def renderCount_append)
    with loop [OF LoopCanceled(1-4)] show ?thesis by simp
  next
    case (Finalized p img evS t1 evJ t2 evA res t3 evF)
    have "renderCount i (runEvents env t) = renderCount i evA"
      using Finalized renderCount_resolveSurface [of i env t] renderCount_renderJob [of i env p t]
        renderCount_renderDecorations [of i p "mDecorations t1"]
        renderCount_finalizeOutput [of i env p img t2]
      by (simp add: runEvents_def renderCount_append)
    with loop [OF Finalized(1-4)] show ?thesis by simp
  qed
qed

section \<open>The claims\<close>

subsection \<open>Cancellation before the run\<close>

text \<open>
  Claim C1, as amended. If \<^verbatim>\<open>cancel()\<close> is called before \<^verbatim>\<open>run()\<close> starts, the run
  returns failure, the task is canceled at its end, and no render operation of a
  decoration or of an annotation is invoked. The failure is the canceled outcome (the
  error code is the one the task had before) whenever a drawing surface is found; when
  the format is PDF without printer support, or the image cannot be allocated, the run
  fails with that error code instead, the cancellation notwithstanding.
\<close>

theorem cancel_before_run_fails_without_rendering:
  "runResult env (fst (cancel t)) = Returned False
   \<and> filter isDecorationRender (runEvents env (fst (cancel t))) = []
   \<and> filter isAnnotationRender (runEvents env (fst (cancel t))) = []
   \<and> isCanceled (runTask env (fst (cancel t)))
   \<and> mError (runTask env (fst (cancel t))) =
       (if mFileFormat t = ''PDF'' \<and> \<not> hasPrinter env then ImageUnsupportedFormat
        else if mPainter t = None \<and> \<not> (mFileFormat t = ''PDF'' \<and> \<not> mForceRaster t)
                \<and> imageIsNull env
        then ImageAllocationFail
        else mError t)"
proof -
  let ?t = "fst (cancel t)"
  have t: "?t = t\<lparr>canceled := True\<rparr>" by (rule fst_cancel)
  show ?thesis
  proof (cases rule: run_cases [of env ?t])
    case (SurfaceError err evS)
    have "filter isDecorationRender (snd (resolveSurface env ?t)) = []"
      "filter isAnnotationRender (snd (resolveSurface env ?t)) = []"
      by (simp_all add: filter_resolveSurface)
    moreover have "err = (if mFileFormat t = ''PDF'' \<and> \<not> hasPrinter env then ImageUnsupportedFormat
        else if mPainter t = None \<and> \<not> (mFileFormat t = ''PDF'' \<and> \<not> mForceRaster t)
                \<and> imageIsNull env
        then ImageAllocationFail
        else mError t)"
      using SurfaceError(1) unfolding t
      by (auto simp: resolveSurface_def Let_def split: if_splits option.splits)
    ultimately show ?thesis using SurfaceError
      by (simp add: runResult_def runEvents_def runTask_def isCanceled_def t)
  next
    case (JobCanceled p img evS t1 evJ)
    have "filter isDecorationRender (snd (resolveSurface env ?t)) = []"
      "filter isAnnotationRender (snd (resolveSurface env ?t)) = []"
      "filter isDecorationRender (snd (renderJob env p ?t)) = []"
      "filter isAnnotationRender (snd (renderJob env p ?t)) = []"
      by (simp_all add: filter_resolveSurface filter_renderJob)
    moreover have "mError t1 = mError t"
      using fst_renderJob [of env p ?t] JobCanceled(2) by (simp add: t)
    moreover have "\<not> (mFileFormat t = ''PDF'' \<and> \<not> hasPrinter env)"
      "\<not> (mPainter t = None \<and> \<not> (mFileFormat t = ''PDF'' \<and> \<not> mForceRaster t) \<and> imageIsNull env)"
      using JobCanceled(1) unfolding t
      by (auto simp: resolveSurface_def Let_def split: if_splits option.splits)
    ultimately show ?thesis using JobCanceled
      by (auto simp: runResult_def runEvents_def runTask_def isCanceled_def)
  next
    case (LoopCanceled p img evS t1 evJ t2 evA)
    have "canceled t1" using fst_renderJob [of env p ?t] LoopCanceled(2) by (simp add: t)
    with LoopCanceled(3) show ?thesis by (simp add: isCanceled_def)
  next
    case (Finalized p img evS t1 evJ t2 evA res t3 evF)
    have "canceled t1" using fst_renderJob [of env p ?t] Finalized(2) by (simp add: t)
    with Finalized(3) show ?thesis by (simp add: isCanceled_def)
  qed
qed

theorem cancel_before_run_fails_without_rendering_witness:
  "runResult exampleEnv (fst (cancel pngTask)) = Returned False
   \<and> isCanceled (runTask exampleEnv (fst (cancel pngTask)))
   \<and> mError (runTask exampleEnv (fst (cancel pngTask))) = NoError"
  using cancel_before_run_fails_without_rendering [of exampleEnv pngTask]
  by (simp add: pngTask_def example_eval)

text \<open>
  The claim as it was stated fails where the image cannot be allocated: the task was
  canceled before the run, and the run ends with the error code of the allocation
  failure, which \<^verbatim>\<open>finished\<close> reports.
\<close>

theorem cancel_before_run_allocation_failure:
  "mError pngTask = NoError
   \<and> runResult nullImageEnv (fst (cancel pngTask)) = Returned False
   \<and> mError (runTask nullImageEnv (fst (cancel pngTask))) = ImageAllocationFail
   \<and> fst (finished False (runTask nullImageEnv (fst (cancel pngTask))))
       = ErrorOccurred ImageAllocationFail"
  by (simp add: pngTask_def nullImageEnv_def exampleEnv_def QgsMapRendererTask_file_def
      addAnnotations_def addDecorations_def cancel_def QgsTask_cancel_def
      runResult_def runTask_def run_def resolveSurface_def finished_def)

subsection \<open>The transform written to the geo-metadata\<close>

text \<open>
  Claim C2. Every transform that a run hands to \<^verbatim>\<open>GDALSetGeoTransform\<close> is
  \<open>[c - 0.5 * (a + b), a, b, f - 0.5 * (d + e), d, e]\<close>, where \<open>(a, b, c, d, e, f)\<close>
  are the parameters that \<^verbatim>\<open>worldFileParameters\<close> yields for the task's settings:
  the origin terms are the base origin terms moved by half a pixel in both axes. And
  for all settings, the pixel width \<open>a\<close> of the helper as the spec describes it is
  the width of the extent divided by the width of the output.
\<close>

theorem geoTransform_half_pixel_shift:
  "(GdalSetGeoTransform g \<in> set (runEvents env t) \<longrightarrow>
      (case worldFileParameters env (mMapSettings t) of
         (a, b, c, d, e, f) \<Rightarrow> g = [c - 0.5 * (a + b), a, b, f - 0.5 * (d + e), d, e]))
   \<and> (case specWorldFileParameters others ms of
         (a, b, c, d, e, f) \<Rightarrow> a = rectWidth (extent ms) / real_of_int (width (outputSize ms)))"
proof -
  obtain a b c d e f where w: "worldFileParameters env (mMapSettings t) = (a, b, c, d, e, f)"
    by (cases "worldFileParameters env (mMapSettings t)") auto
  have "geoTransform (a, b, c, d, e, f) = [c - 0.5 * (a + b), a, b, f - 0.5 * (d + e), d, e]"
    by (simp add: geoTransform_def Let_def algebra_simps)
  with geoTransform_run [of g env t] w show ?thesis
    by (auto simp: specWorldFileParameters_def split: prod.splits)
qed

theorem geoTransform_half_pixel_shift_witness:
  "GdalSetGeoTransform [- (1 / 4), 1 / 2, 0, 199 / 2, 1, 0] \<in> set (runEvents exampleEnv tifTask)
   \<and> worldFileParameters exampleEnv (mMapSettings tifTask) = (1 / 2, 0, 0, 1, 0, 100)
   \<and> rectWidth (extent exampleSettings) / real_of_int (width (outputSize exampleSettings)) = 1 / 2"
  using geoTransform_half_pixel_shift [where g = "[- (1 / 4), 1 / 2, 0, 199 / 2, 1, 0]"
      and env = exampleEnv and t = tifTask and others = exampleOthers and ms = exampleSettings]
  by (simp add: tifTask_def run_eval example_eval)

subsection \<open>Which annotations are rendered\<close>

text \<open>
  Claim C3, as amended. For the annotation at index \<open>i\<close> of the task's list: if its
  layer is not among the layers of the settings, or if it is invisible, its render
  operation is never invoked, and it is invoked at most once in any run. If it is
  visible and its layer is among the layers (or it has none), it is invoked exactly
  once in every run that reaches its iteration of the annotation loop, whatever the
  run returns after that, and not at all in a run that leaves before: the run reaches
  the iteration exactly when a drawing surface is found (the format is not PDF without
  printer support, and the image, where one is needed, is allocated), the task is not
  canceled when the run starts, and no \<^verbatim>\<open>cancel()\<close> takes effect before the check of
  that iteration (the points \<open>0\<close> to \<open>3 + i\<close>). In particular it is invoked exactly
  once in every run that does not return failure.
\<close>

theorem annotation_rendered_by_filter:
  assumes "i < length (mAnnotations t)" "mAnnotations t ! i = Some a"
  shows "(mapLayer a \<noteq> None \<and> the (mapLayer a) \<notin> set (layers (mMapSettings t))
            \<longrightarrow> renderCount i (runEvents env t) = 0)
       \<and> (\<not> isVisible a \<longrightarrow> renderCount i (runEvents env t) = 0)
       \<and> renderCount i (runEvents env t) \<le> 1
       \<and> renderCount i (runEvents env t) =
           (if isVisible a
               \<and> (mapLayer a = None \<or> the (mapLayer a) \<in> set (layers (mMapSettings t)))
               \<and> \<not> (mFileFormat t = ''PDF'' \<and> \<not> hasPrinter env)
               \<and> \<not> (mPainter t = None \<and> \<not> (mFileFormat t = ''PDF'' \<and> \<not> mForceRaster t)
                     \<and> imageIsNull env)
               \<and> \<not> canceled t \<and> (\<forall>k \<le> 3 + i. \<not> cancelCalls env k)
            then 1 else 0)
       \<and> (isVisible a \<and> (mapLayer a = None \<or> the (mapLayer a) \<in> set (layers (mMapSettings t)))
            \<and> runResult env t \<noteq> Returned False
            \<longrightarrow> renderCount i (runEvents env t) = 1)"
proof -
  have old: "(isVisible a \<and> (mapLayer a = None \<or> the (mapLayer a) \<in> set (layers (mMapSettings t)))
            \<and> runResult env t \<noteq> Returned False
            \<longrightarrow> renderCount i (runEvents env t) = 1)"
    using assms renderCount_run [of i env t]
    by (auto simp: annotationPasses_def split: if_splits)
  have exact: "renderCount i (runEvents env t) =
           (if isVisible a
               \<and> (mapLayer a = None \<or> the (mapLayer a) \<in> set (layers (mMapSettings t)))
               \<and> \<not> (mFileFormat t = ''PDF'' \<and> \<not> hasPrinter env)
               \<and> \<not> (mPainter t = None \<and> \<not> (mFileFormat t = ''PDF'' \<and> \<not> mForceRaster t)
                     \<and> imageIsNull env)
               \<and> \<not> canceled t \<and> (\<forall>k \<le> 3 + i. \<not> cancelCalls env k)
            then 1 else 0)"
    using assms renderCount_run_exact [of i env t]
    by (simp add: annotationPasses_def)
  from exact have "(mapLayer a \<noteq> None \<and> the (mapLayer a) \<notin> set (layers (mMapSettings t))
            \<longrightarrow> renderCount i (runEvents env t) = 0)"
    "(\<not> isVisible a \<longrightarrow> renderCount i (runEvents env t) = 0)"
    "renderCount i (runEvents env t) \<le> 1"
    by (auto split: if_splits)
  with exact old show ?thesis by blast
qed

theorem annotation_rendered_by_filter_witness:
  "mAnnotations pngTask ! 0 = Some centerAnnotation
   \<and> mAnnotations pngTask ! 2 = Some strayAnnotation
   \<and> isVisible centerAnnotation \<and> mapLayer centerAnnotation = Some 1
   \<and> mapLayer strayAnnotation = Some 7
   \<and> layers (mMapSettings pngTask) = [1, 2]
   \<and> runResult exampleEnv pngTask = Returned True
   \<and> renderCount 0 (runEvents exampleEnv pngTask) = 1
   \<and> renderCount 2 (runEvents exampleEnv pngTask) = 0
   \<and> runResult saveFailEnv pngTask = Returned False
   \<and> mError (runTask saveFailEnv pngTask) = ImageSaveFail
   \<and> renderCount 0 (runEvents saveFailEnv pngTask) = 1"
  using annotation_rendered_by_filter [of 0 pngTask centerAnnotation exampleEnv]
    annotation_rendered_by_filter [of 2 pngTask strayAnnotation exampleEnv]
    annotation_rendered_by_filter [of 0 pngTask centerAnnotation saveFailEnv]
  by (simp add: pngTask_def saveFailEnv_def centerAnnotation_def cornerAnnotation_def
      strayAnnotation_def run_eval example_eval)

text \<open>
  The claim as it was stated fails for a run that is canceled before it starts: the
  annotation at index 1 is visible and has no layer, and it is not rendered.
\<close>

theorem visible_annotation_unrendered_when_canceled:
  "mAnnotations pngTask ! 1 = Some cornerAnnotation
   \<and> isVisible cornerAnnotation
   \<and> mapLayer cornerAnnotation = None
   \<and> renderCount 1 (runEvents exampleEnv (fst (cancel pngTask))) = 0"
  by (simp add: pngTask_def exampleEnv_def QgsMapRendererTask_file_def
      addAnnotations_def addDecorations_def centerAnnotation_def cornerAnnotation_def
      strayAnnotation_def exampleSettings_def runEvents_def run_def resolveSurface_def
      renderJob_def concurrentCancel_def isCanceled_def Let_def cancel_def QgsTask_cancel_def
      renderCount_def)

subsection \<open>The anchor of an annotation\<close>

text \<open>
  Claim C4. For an annotation with a fixed map position, and settings whose extent has
  positive width and height, the anchor is
  \<open>x = outputWidth * (annotation.x - extent.xmin) / extent.width\<close> and
  \<open>y = outputHeight * (1 - (annotation.y - extent.ymin) / extent.height)\<close>; an
  annotation at the centre of the extent is anchored at half the output width and half
  the output height. In a run that does not return failure, the painter is translated
  to this anchor right before the render operation of the annotation, if the
  annotation is one that is drawn.
\<close>

theorem fixed_position_anchor:
  assumes "hasFixedMapPosition a" "0 < rectWidth (extent ms)" "0 < rectHeight (extent ms)"
  shows "annotationItemPos ms a =
           (real_of_int (width (outputSize ms)) * (fst (mapPosition a) - xMinimum (extent ms))
              / rectWidth (extent ms),
            real_of_int (height (outputSize ms))
              * (1 - (snd (mapPosition a) - yMinimum (extent ms)) / rectHeight (extent ms)))
       \<and> (mapPosition a = (xMinimum (extent ms) + rectWidth (extent ms) / 2,
                          yMinimum (extent ms) + rectHeight (extent ms) / 2)
            \<longrightarrow> annotationItemPos ms a =
                  (real_of_int (width (outputSize ms)) / 2, real_of_int (height (outputSize ms)) / 2))
       \<and> (ms = mMapSettings t \<and> i < length (mAnnotations t) \<and> mAnnotations t ! i = Some a
            \<and> isVisible a \<and> (mapLayer a = None \<or> the (mapLayer a) \<in> set (layers ms))
            \<and> runResult env t \<noteq> Returned False
            \<longrightarrow> (\<exists>pre post p. runEvents env t =
                   pre @ [PainterTranslate p
                            (real_of_int (width (outputSize ms))
                               * (fst (mapPosition a) - xMinimum (extent ms)) / rectWidth (extent ms))
                            (real_of_int (height (outputSize ms))
                               * (1 - (snd (mapPosition a) - yMinimum (extent ms))
                                        / rectHeight (extent ms))),
                          AnnotationRender i p] @ post))"
proof -
  have pos: "annotationItemPos ms a =
           (real_of_int (width (outputSize ms)) * (fst (mapPosition a) - xMinimum (extent ms))
              / rectWidth (extent ms),
            real_of_int (height (outputSize ms))
              * (1 - (snd (mapPosition a) - yMinimum (extent ms)) / rectHeight (extent ms)))"
    using assms(1) by (simp add: annotationItemPos_def)
  have center: "mapPosition a = (xMinimum (extent ms) + rectWidth (extent ms) / 2,
                          yMinimum (extent ms) + rectHeight (extent ms) / 2)
            \<longrightarrow> annotationItemPos ms a =
                  (real_of_int (width (outputSize ms)) / 2, real_of_int (height (outputSize ms)) / 2)"
    using assms by (simp add: annotationItemPos_def)
  have runs: "ms = mMapSettings t \<and> i < length (mAnnotations t) \<and> mAnnotations t ! i = Some a
            \<and> isVisible a \<and> (mapLayer a = None \<or> the (mapLayer a) \<in> set (layers ms))
            \<and> runResult env t \<noteq> Returned False
            \<longrightarrow> (\<exists>pre post p. runEvents env t =
                   pre @ [PainterTranslate p (fst (annotationItemPos ms a)) (snd (annotationItemPos ms a)),
                          AnnotationRender i p] @ post)"
    using run_translates [of env t i a] by blast
  show ?thesis using pos center runs by (simp only: fst_conv snd_conv) 
qed

theorem fixed_position_anchor_witness:
  "hasFixedMapPosition centerAnnotation
   \<and> 0 < rectWidth (extent exampleSettings) \<and> 0 < rectHeight (extent exampleSettings)
   \<and> mapPosition centerAnnotation = (50, 50)
   \<and> annotationItemPos exampleSettings centerAnnotation = (100, 50)
   \<and> runResult exampleEnv pngTask = Returned True
   \<and> (\<exists>pre post p. runEvents exampleEnv pngTask =
          pre @ [PainterTranslate p 100 50, AnnotationRender 0 p] @ post)"
  using fixed_position_anchor [of centerAnnotation exampleSettings pngTask 0 exampleEnv]
  by (simp add: pngTask_def centerAnnotation_def cornerAnnotation_def strayAnnotation_def
      run_eval example_eval)

text \<open>
  Claim C5. For an annotation with a relative position the anchor is
  \<open>x = relX * outputWidth\<close> and \<open>y = relY * outputHeight\<close>; the relative position
  (0, 0) is anchored at pixel (0, 0), and (1, 1) at (outputWidth, outputHeight). In a
  run that does not return failure, the painter is translated to this anchor right
  before the render operation of the annotation, if the annotation is one that is drawn.
\<close>

theorem relative_position_anchor:
  assumes "\<not> hasFixedMapPosition a"
  shows "annotationItemPos ms a =
           (fst (relativePosition a) * real_of_int (width (outputSize ms)),
            snd (relativePosition a) * real_of_int (height (outputSize ms)))
       \<and> (relativePosition a = (0, 0) \<longrightarrow> annotationItemPos ms a = (0, 0))
       \<and> (relativePosition a = (1, 1) \<longrightarrow>
            annotationItemPos ms a =
              (real_of_int (width (outputSize ms)), real_of_int (height (outputSize ms))))
       \<and> (ms = mMapSettings t \<and> i < length (mAnnotations t) \<and> mAnnotations t ! i = Some a
            \<and> isVisible a \<and> (mapLayer a = None \<or> the (mapLayer a) \<in> set (layers ms))
            \<and> runResult env t \<noteq> Returned False
            \<longrightarrow> (\<exists>pre post p. runEvents env t =
                   pre @ [PainterTranslate p
                            (fst (relativePosition a) * real_of_int (width (outputSize ms)))
                            (snd (relativePosition a) * real_of_int (height (outputSize ms))),
                          AnnotationRender i p] @ post))"
proof -
  have pos: "annotationItemPos ms a =
           (fst (relativePosition a) * real_of_int (width (outputSize ms)),
            snd (relativePosition a) * real_of_int (height (outputSize ms)))"
    using assms by (simp add: annotationItemPos_def)
  have runs: "ms = mMapSettings t \<and> i < length (mAnnotations t) \<and> mAnnotations t ! i = Some a
            \<and> isVisible a \<and> (mapLayer a = None \<or> the (mapLayer a) \<in> set (layers ms))
            \<and> runResult env t \<noteq> Returned False
            \<longrightarrow> (\<exists>pre post p. runEvents env t =
                   pre @ [PainterTranslate p (fst (annotationItemPos ms a)) (snd (annotationItemPos ms a)),
                          AnnotationRender i p] @ post)"
    using run_translates [of env t i a] by blast
  have zero: "relativePosition a = (0, 0) \<longrightarrow> annotationItemPos ms a = (0, 0)"
    and one: "relativePosition a = (1, 1) \<longrightarrow>
            annotationItemPos ms a =
              (real_of_int (width (outputSize ms)), real_of_int (height (outputSize ms)))"
    using pos by simp_all
  show ?thesis using pos zero one runs by (simp only: fst_conv snd_conv)
qed

theorem relative_position_anchor_witness:
  "\<not> hasFixedMapPosition cornerAnnotation
   \<and> relativePosition cornerAnnotation = (1, 1)
   \<and> annotationItemPos exampleSettings cornerAnnotation = (200, 100)
   \<and> runResult exampleEnv pngTask = Returned True
   \<and> (\<exists>pre post p. runEvents exampleEnv pngTask =
          pre @ [PainterTranslate p 200 100, AnnotationRender 1 p] @ post)"
  using relative_position_anchor [of cornerAnnotation exampleSettings pngTask 1 exampleEnv]
  by (simp add: pngTask_def centerAnnotation_def cornerAnnotation_def strayAnnotation_def
      run_eval example_eval)

subsection \<open>\<^verbatim>\<open>cancel()\<close>\<close>

text \<open>
  Claim C6. A call of \<^verbatim>\<open>cancel()\<close> issues the job's non-blocking cancel request
  exactly when a job handle exists at that moment, once then and not at all otherwise;
  after that it marks the task canceled in either case, and changes nothing else of
  the task.
\<close>

theorem cancel_requests_job_once_and_marks_task:
  "(mJob t = Some j \<longrightarrow> snd (cancel t) = [JobCancelWithoutBlocking j])
   \<and> (mJob t = None \<longrightarrow> snd (cancel t) = [])
   \<and> length (filter isJobCancel (snd (cancel t))) = (if mJob t = None then 0 else 1)
   \<and> isCanceled (fst (cancel t))
   \<and> fst (cancel t) = t\<lparr>canceled := True\<rparr>"
  by (auto simp: cancel_def QgsTask_cancel_def isCanceled_def split: option.splits)

theorem cancel_requests_job_once_and_marks_task_witness:
  "mJob (pngTask\<lparr>mJob := Some ImagePainter\<rparr>) = Some ImagePainter
   \<and> snd (cancel (pngTask\<lparr>mJob := Some ImagePainter\<rparr>)) = [JobCancelWithoutBlocking ImagePainter]
   \<and> isCanceled (fst (cancel (pngTask\<lparr>mJob := Some ImagePainter\<rparr>)))
   \<and> mJob pngTask = None
   \<and> snd (cancel pngTask) = []
   \<and> isCanceled (fst (cancel pngTask))"
  using cancel_requests_job_once_and_marks_task [of "pngTask\<lparr>mJob := Some ImagePainter\<rparr>" ImagePainter]
    cancel_requests_job_once_and_marks_task [of pngTask ImagePainter]
  by (simp add: pngTask_def example_eval cancel_def QgsTask_cancel_def isCanceled_def)

subsection \<open>The name of the world file\<close>

text \<open>
  Claim C7 says that the world file is named by replacing the extension of the output
  by the first and the last character of that extension and \<open>w\<close>. The code departs
  from it for a file name with more than one dot: for the raster output
  \<^verbatim>\<open>/tmp/map.v2.png\<close> with the world file enabled, the run opens
  \<^verbatim>\<open>/tmp/map.pgw\<close>, while replacing the extension \<^verbatim>\<open>png\<close> gives
  \<^verbatim>\<open>/tmp/map.v2.pgw\<close>.
\<close>

theorem world_file_name_of_dotted_file_name:
  "mSaveWorldFile dottedTask
   \<and> suffix (mFileName dottedTask) = ''png''
   \<and> runResult exampleEnv dottedTask = Returned True
   \<and> filter isWorldFileOpen (runEvents exampleEnv dottedTask) = [WorldFileOpen ''/tmp/map.pgw'']
   \<and> absolutePath exampleEnv (mFileName dottedTask) @ ''/'' @ completeBaseName (mFileName dottedTask)
        @ ''.'' @ ''pgw'' = ''/tmp/map.v2.pgw''"
  by (simp add: dottedTask_def run_eval example_eval completeBaseName_def)

subsection \<open>PDF without printer support\<close>

text \<open>
  Claim C8. When the format is PDF and printer support is not compiled in, the run
  returns failure with the error code \<open>ImageUnsupportedFormat\<close>, and it issues no
  call at all before that: no surface is created, no job is constructed, nothing is drawn.
\<close>

theorem pdf_without_printer_fails_first:
  assumes "mFileFormat t = ''PDF''" "\<not> hasPrinter env"
  shows "run env t = (Returned False, t\<lparr>mError := ImageUnsupportedFormat\<rparr>, [])"
  using assms by (simp add: run_def resolveSurface_def)

theorem pdf_without_printer_fails_first_witness:
  "mFileFormat pdfTask = ''PDF'' \<and> \<not> hasPrinter noPrinterEnv
   \<and> run noPrinterEnv pdfTask = (Returned False, pdfTask\<lparr>mError := ImageUnsupportedFormat\<rparr>, [])"
  using pdf_without_printer_fails_first [of pdfTask noPrinterEnv]
  by (simp add: pdfTask_def noPrinterEnv_def example_eval)

subsection \<open>A task that draws on a given painter\<close>

text \<open>
  Claim C9. A task constructed with a painter, whatever annotations, decorations and
  world-file flag it is given afterwards, issues no call of the output phase in any
  run: the painter is not ended, no image is saved, no geo-metadata is written, and no
  world file is opened or written.
\<close>

theorem painter_task_skips_output:
  "filter isOutputEvent
     (runEvents env
        (addDecorations decorations
           (addAnnotations annotations
              ((QgsMapRendererTask_painter ms p)\<lparr>mSaveWorldFile := w\<rparr>)))) = []"
  by (rule no_output_without_file_name)
     (simp add: addDecorations_def addAnnotations_def QgsMapRendererTask_painter_def)

theorem painter_task_skips_output_witness:
  "mPainter painterTask = Some 3
   \<and> runResult exampleEnv painterTask = Returned True
   \<and> filter isOutputEvent (runEvents exampleEnv painterTask) = []"
  using painter_task_skips_output [where env = exampleEnv and decorations = "[5]"
      and annotations = "[centerAnnotation, cornerAnnotation, strayAnnotation]"
      and ms = exampleSettings and p = "Some 3" and w = False]
  by (simp add: painterTask_def centerAnnotation_def cornerAnnotation_def strayAnnotation_def
      run_eval example_eval)

subsection \<open>Embedded georeference or world file\<close>

text \<open>
  Claim C10, as amended. For a raster output (the format is not PDF) whose file name
  has the suffix \<^verbatim>\<open>tif\<close> or \<^verbatim>\<open>tiff\<close>, with the world file enabled, every run
  that returns success does the following. The transform is written into the file
  exactly when reopening the file for update succeeds, and then no world file is
  opened. When the reopening fails, the world file is opened for writing once, and it
  is written exactly when that opening succeeds. So at most one of the two is
  produced, and exactly one unless both the reopening and the opening of the world
  file fail.
\<close>

theorem tiff_georeference_embedded_or_sidecar:
  assumes "suffix (mFileName t) = ''tif'' \<or> suffix (mFileName t) = ''tiff''"
    "mFileFormat t \<noteq> ''PDF''" "mSaveWorldFile t"
    "runResult env t = Returned True"
  shows "length (filter isGeoTransformWrite (runEvents env t)) = (if gdalOpenOk env then 1 else 0)
       \<and> length (filter isWorldFileOpen (runEvents env t)) = (if gdalOpenOk env then 0 else 1)
       \<and> length (filter isWorldFileWrite (runEvents env t)) =
           (if \<not> gdalOpenOk env \<and> worldFileOpenOk env then 1 else 0)"
proof (cases rule: run_cases [of env t])
  case (SurfaceError err evS)
  with assms(4) show ?thesis by (simp add: runResult_def)
next
  case (JobCanceled p img evS t1 evJ)
  with assms(4) show ?thesis by (simp add: runResult_def)
next
  case (LoopCanceled p img evS t1 evJ t2 evA)
  with assms(4) show ?thesis by (simp add: runResult_def)
next
  case (Finalized p img evS t1 evJ t2 evA res t3 evF)
  note k = renderAnnotations_keeps [OF Finalized(4)] renderJob_keeps [OF Finalized(2)]
  have res: "res = Returned True" using assms(4) Finalized(6) by (simp add: runResult_def)
  have fin: "length (filter isGeoTransformWrite evF) = (if gdalOpenOk env then 1 else 0)
       \<and> length (filter isWorldFileOpen evF) = (if gdalOpenOk env then 0 else 1)
       \<and> length (filter isWorldFileWrite evF) =
           (if \<not> gdalOpenOk env \<and> worldFileOpenOk env then 1 else 0)"
    using finalizeOutput_tiff [of t2 env p img t3 evF] assms(1-3) k Finalized(5) res by simp
  have "filter isGeoTransformWrite (runEvents env t) = filter isGeoTransformWrite evF"
    using Finalized filter_resolveSurface [of isGeoTransformWrite env t]
      filter_renderJob [of isGeoTransformWrite env p t]
      filter_renderDecorations [of isGeoTransformWrite p "mDecorations t1"]
      filter_renderAnnotations [OF Finalized(4), of isGeoTransformWrite]
    by (simp add: runEvents_def)
  moreover have "filter isWorldFileOpen (runEvents env t) = filter isWorldFileOpen evF"
    using Finalized filter_resolveSurface [of isWorldFileOpen env t]
      filter_renderJob [of isWorldFileOpen env p t]
      filter_renderDecorations [of isWorldFileOpen p "mDecorations t1"]
      filter_renderAnnotations [OF Finalized(4), of isWorldFileOpen]
    by (simp add: runEvents_def)
  moreover have "filter isWorldFileWrite (runEvents env t) = filter isWorldFileWrite evF"
    using Finalized filter_resolveSurface [of isWorldFileWrite env t]
      filter_renderJob [of isWorldFileWrite env p t]
      filter_renderDecorations [of isWorldFileWrite p "mDecorations t1"]
      filter_renderAnnotations [OF Finalized(4), of isWorldFileWrite]
    by (simp add: runEvents_def)
  ultimately show ?thesis using fin by simp
qed

theorem tiff_georeference_embedded_or_sidecar_witness:
  "suffix (mFileName tifTask) = ''tif'' \<and> mFileFormat tifTask \<noteq> ''PDF'' \<and> mSaveWorldFile tifTask
   \<and> runResult sidecarEnv tifTask = Returned True
   \<and> length (filter isGeoTransformWrite (runEvents sidecarEnv tifTask)) = 0
   \<and> length (filter isWorldFileWrite (runEvents sidecarEnv tifTask)) = 1
   \<and> runResult exampleEnv tifTask = Returned True
   \<and> length (filter isGeoTransformWrite (runEvents exampleEnv tifTask)) = 1
   \<and> length (filter isWorldFileWrite (runEvents exampleEnv tifTask)) = 0"
  using tiff_georeference_embedded_or_sidecar [of tifTask sidecarEnv]
    tiff_georeference_embedded_or_sidecar [of tifTask exampleEnv]
  by (simp add: tifTask_def sidecarEnv_def run_eval example_eval)

text \<open>
  The claim as it was stated fails where neither file can be opened: the run returns
  success, and it has written neither the transform nor a world file.
\<close>

theorem tiff_georeference_neither_when_read_only:
  "suffix (mFileName tifTask) = ''tif'' \<and> mFileFormat tifTask \<noteq> ''PDF'' \<and> mSaveWorldFile tifTask
   \<and> runResult readOnlyEnv tifTask = Returned True
   \<and> filter isGeoTransformWrite (runEvents readOnlyEnv tifTask) = []
   \<and> filter isWorldFileWrite (runEvents readOnlyEnv tifTask) = []"
  by (simp add: tifTask_def readOnlyEnv_def run_eval example_eval)

end
